theory Spec2Isabelle
  imports Complex_Main
begin

section \<open>Python strings\<close>

text \<open>
  A Python \<^verbatim>\<open>str\<close> is a sequence of Unicode code points. A code point is a natural
  number here, so that the reply of the text-generation service, which is not limited
  to one byte per character, is covered in full. \<open>py\<close> turns a literal of the source
  into such a sequence.
\<close>

type_synonym pystr = "nat list"

definition py :: "string \<Rightarrow> pystr" where
  "py s = map of_char s"

text \<open>
  \<^verbatim>\<open>str.isspace\<close> for one code point: the characters \<^verbatim>\<open>str.strip()\<close> removes when it is
  called without argument (U+0009..U+000D, U+001C..U+0020, U+0085, U+00A0, U+1680,
  U+2000..U+200A, U+2028, U+2029, U+202F, U+205F, U+3000).
\<close>

definition isspace :: "nat \<Rightarrow> bool" where
  "isspace c \<longleftrightarrow>
     (9 \<le> c \<and> c \<le> 13) \<or> (28 \<le> c \<and> c \<le> 32) \<or> c = 133 \<or> c = 160 \<or> c = 5760 \<or>
     (8192 \<le> c \<and> c \<le> 8202) \<or> c = 8232 \<or> c = 8233 \<or> c = 8239 \<or> c = 8287 \<or> c = 12288"

definition strip :: "pystr \<Rightarrow> pystr" where
  "strip s = rev (dropWhile isspace (rev (dropWhile isspace s)))"

definition startswith :: "pystr \<Rightarrow> pystr \<Rightarrow> bool" where
  "startswith s p \<longleftrightarrow> take (length p) s = p"

text \<open>\<^verbatim>\<open>text.split('\n')\<close>: the pieces between line feeds (code point 10); never empty.\<close>

fun split_lines :: "pystr \<Rightarrow> pystr list" where
  "split_lines [] = [[]]"
| "split_lines (c # cs) =
     (if c = 10 then [] # split_lines cs
      else (case split_lines cs of [] \<Rightarrow> [[c]] | l # ls \<Rightarrow> (c # l) # ls))"

text \<open>
  \<^verbatim>\<open>s.replace('**', '')\<close>: the occurrences of two asterisks (code point 42) are found
  from the left, without overlap, and removed.
\<close>

fun replace_stars :: "pystr \<Rightarrow> pystr" where
  "replace_stars (a # b # cs) =
     (if a = 42 \<and> b = 42 then replace_stars cs else a # replace_stars (b # cs))"
| "replace_stars cs = cs"

text \<open>Whether a string holds the marker: two asterisks next to each other.\<close>

fun has_stars :: "pystr \<Rightarrow> bool" where
  "has_stars (a # b # cs) = ((a = 42 \<and> b = 42) \<or> has_stars (b # cs))"
| "has_stars cs = False"

section \<open>The response parser of \<^verbatim>\<open>get_gemini_recommendations\<close>\<close>

text \<open>
  The loop over the lines of the generated text keeps three variables:
  \<^verbatim>\<open>recommendations\<close>, \<^verbatim>\<open>summary\<close> and \<^verbatim>\<open>summary_found\<close>. \<open>parse_line\<close> is one turn
  of the loop, with the three branches in the order of the source.
\<close>

type_synonym parse_state = "pystr list \<times> pystr \<times> bool"

definition parse_line :: "parse_state \<Rightarrow> pystr \<Rightarrow> parse_state" where
  "parse_line st line =
     (case st of (recommendations, summary, summary_found) \<Rightarrow>
        let stripped_line = strip line in
        if startswith stripped_line (py ''Summary:'') then
          (recommendations, strip (drop (length (py ''Summary:'')) stripped_line), True)
        else if startswith stripped_line (py ''-'') \<and> \<not> summary_found then
          (recommendations @ [replace_stars stripped_line], summary, summary_found)
        else if \<not> summary_found \<and> stripped_line \<noteq> [] then
          (recommendations @ [replace_stars stripped_line], summary, summary_found)
        else (recommendations, summary, summary_found))"

definition parse_lines :: "parse_state \<Rightarrow> pystr list \<Rightarrow> parse_state" where
  "parse_lines st lines = foldl parse_line st lines"

text \<open>
  The part of the function that runs once the generated text is at hand: the loop from
  empty recommendations and an empty summary, then the fallback when both are still
  empty.
\<close>

definition parse_reply :: "pystr \<Rightarrow> pystr list \<times> pystr" where
  "parse_reply generated_text =
     (case parse_lines ([], [], False) (split_lines generated_text) of
        (recommendations, summary, summary_found) \<Rightarrow>
          if recommendations = [] \<and> summary = [] then
            ([replace_stars (strip generated_text)], py ''No distinct summary provided by AI.'')
          else (recommendations, summary))"

section \<open>Values decoded from JSON, and the exceptions of the try block\<close>

text \<open>
  What \<^verbatim>\<open>response.json()\<close> returns: \<^verbatim>\<open>None\<close>, a bool, an int, a float, a str, a list or a
  dict with string keys. A dict is the list of its items; its keys are distinct, and a
  lookup takes the first item with the key. A float is given by its value; the floats
  \<^verbatim>\<open>inf\<close> and \<^verbatim>\<open>nan\<close>, which the decoder accepts too, are true and fail every operation
  below as a finite float other than zero does.
\<close>

datatype pyval =
    PNone
  | PBool bool
  | PInt int
  | PFloat rat
  | PStr pystr
  | PList "pyval list"
  | PDict "(pystr \<times> pyval) list"

text \<open>
  The exceptions that the body of the \<^verbatim>\<open>try\<close> can raise, by the classes that the three
  \<^verbatim>\<open>except\<close> clauses tell apart; each carries \<^verbatim>\<open>str(e)\<close>. \<open>RequestException\<close> stands for
  \<^verbatim>\<open>requests.exceptions.RequestException\<close> and its subclasses (connection errors,
  timeouts, \<^verbatim>\<open>HTTPError\<close>). \<open>RequestsJSONDecodeError\<close> is
  \<^verbatim>\<open>requests.exceptions.JSONDecodeError\<close>, a subclass of both \<^verbatim>\<open>RequestException\<close> and
  \<^verbatim>\<open>json.JSONDecodeError\<close>, which recent versions of the library raise from
  \<^verbatim>\<open>response.json()\<close>; \<open>JSONDecodeError\<close> is \<^verbatim>\<open>json.JSONDecodeError\<close> alone. The other
  constructors are subclasses of \<^verbatim>\<open>Exception\<close> that belong to neither.
\<close>

datatype py_exception =
    RequestException pystr
  | RequestsJSONDecodeError pystr
  | JSONDecodeError pystr
  | KeyError pystr
  | IndexError pystr
  | TypeError pystr
  | AttributeError pystr
  | OtherException pystr

fun str_exc :: "py_exception \<Rightarrow> pystr" where
  "str_exc (RequestException m) = m"
| "str_exc (RequestsJSONDecodeError m) = m"
| "str_exc (JSONDecodeError m) = m"
| "str_exc (KeyError m) = m"
| "str_exc (IndexError m) = m"
| "str_exc (TypeError m) = m"
| "str_exc (AttributeError m) = m"
| "str_exc (OtherException m) = m"

text \<open>Sequencing of steps that may raise: the first exception ends the block.\<close>

definition and_then :: "py_exception + 'a \<Rightarrow> ('a \<Rightarrow> py_exception + 'b) \<Rightarrow> py_exception + 'b" where
  "and_then x f = (case x of Inl e \<Rightarrow> Inl e | Inr v \<Rightarrow> f v)"

fun truthy :: "pyval \<Rightarrow> bool" where
  "truthy PNone = False"
| "truthy (PBool b) = b"
| "truthy (PInt i) = (i \<noteq> 0)"
| "truthy (PFloat x) = (x \<noteq> 0)"
| "truthy (PStr s) = (s \<noteq> [])"
| "truthy (PList xs) = (xs \<noteq> [])"
| "truthy (PDict kvs) = (kvs \<noteq> [])"

fun type_name :: "pyval \<Rightarrow> pystr" where
  "type_name PNone = py ''NoneType''"
| "type_name (PBool b) = py ''bool''"
| "type_name (PInt i) = py ''int''"
| "type_name (PFloat x) = py ''float''"
| "type_name (PStr s) = py ''str''"
| "type_name (PList xs) = py ''list''"
| "type_name (PDict kvs) = py ''dict''"

text \<open>
  A name between apostrophes (code point 39), as the messages of the interpreter show
  type and attribute names, and as \<^verbatim>\<open>repr\<close> shows a string key without quotes or
  escapes in the message of a \<^verbatim>\<open>KeyError\<close>.
\<close>

definition quoted :: "pystr \<Rightarrow> pystr" where
  "quoted k = 39 # k @ [39]"

text \<open>\<^verbatim>\<open>v.get(key)\<close>: only a dict has the method.\<close>

fun py_get :: "pyval \<Rightarrow> pystr \<Rightarrow> py_exception + pyval" where
  "py_get (PDict kvs) key = Inr (case map_of kvs key of None \<Rightarrow> PNone | Some v \<Rightarrow> v)"
| "py_get v key =
     Inl (AttributeError (quoted (type_name v) @ py '' object has no attribute '' @ quoted (py ''get'')))"

text \<open>\<^verbatim>\<open>len(v)\<close>.\<close>

fun py_len :: "pyval \<Rightarrow> py_exception + int" where
  "py_len (PStr s) = Inr (int (length s))"
| "py_len (PList xs) = Inr (int (length xs))"
| "py_len (PDict kvs) = Inr (int (length kvs))"
| "py_len v = Inl (TypeError (py ''object of type '' @ quoted (type_name v) @ py '' has no len()''))"

text \<open>\<^verbatim>\<open>v[key]\<close> for a string key.\<close>

fun item_key :: "pyval \<Rightarrow> pystr \<Rightarrow> py_exception + pyval" where
  "item_key (PDict kvs) key =
     (case map_of kvs key of None \<Rightarrow> Inl (KeyError (quoted key)) | Some v \<Rightarrow> Inr v)"
| "item_key (PList xs) key = Inl (TypeError (py ''list indices must be integers or slices, not str''))"
| "item_key (PStr s) key = Inl (TypeError (py ''string indices must be integers, not '' @ quoted (py ''str'')))"
| "item_key v key = Inl (TypeError (quoted (type_name v) @ py '' object is not subscriptable''))"

text \<open>\<^verbatim>\<open>v[0]\<close>. A dict decoded from JSON has string keys only, so the key \<^verbatim>\<open>0\<close> is missing.\<close>

fun item_0 :: "pyval \<Rightarrow> py_exception + pyval" where
  "item_0 (PList []) = Inl (IndexError (py ''list index out of range''))"
| "item_0 (PList (x # xs)) = Inr x"
| "item_0 (PStr []) = Inl (IndexError (py ''string index out of range''))"
| "item_0 (PStr (c # cs)) = Inr (PStr [c])"
| "item_0 (PDict kvs) = Inl (KeyError (py ''0''))"
| "item_0 v = Inl (TypeError (quoted (type_name v) @ py '' object is not subscriptable''))"

section \<open>The HTTP exchange\<close>

text \<open>
  The service and the transport are outside the program. What they do in one call is an
  argument of the model: either \<^verbatim>\<open>requests.post\<close> raises, or it returns a response with
  a status code, the text that \<^verbatim>\<open>raise_for_status()\<close> would put in its \<^verbatim>\<open>HTTPError\<close>, and
  what \<^verbatim>\<open>response.json()\<close> does (raise, or return the decoded value).
\<close>

record http_response =
  status_code :: nat
  http_error_text :: pystr
  json_result :: "py_exception + pyval"

datatype post_outcome = PostRaises py_exception | PostReturns http_response

definition raise_for_status :: "http_response \<Rightarrow> py_exception + unit" where
  "raise_for_status response =
     (if 400 \<le> status_code response \<and> status_code response < 600
      then Inl (RequestException (http_error_text response)) else Inr ())"

section \<open>\<^verbatim>\<open>get_gemini_recommendations\<close>\<close>

text \<open>
  The test \<^verbatim>\<open>result and result.get("candidates") and len(result["candidates"]) > 0\<close>,
  evaluated from the left; \<^verbatim>\<open>result["candidates"]\<close> is only reached for a dict that has
  the key.
\<close>

definition has_candidates :: "pyval \<Rightarrow> py_exception + bool" where
  "has_candidates result =
     (if \<not> truthy result then Inr False
      else and_then (py_get result (py ''candidates'')) (\<lambda>c.
        if \<not> truthy c then Inr False
        else and_then (item_key result (py ''candidates'')) (\<lambda>candidates.
          and_then (py_len candidates) (\<lambda>n. Inr (n > 0)))))"

text \<open>\<^verbatim>\<open>result["candidates"][0]["content"]["parts"][0]["text"]\<close>.\<close>

definition candidate_text :: "pyval \<Rightarrow> py_exception + pyval" where
  "candidate_text result =
     and_then (item_key result (py ''candidates'')) (\<lambda>candidates.
     and_then (item_0 candidates) (\<lambda>candidate.
     and_then (item_key candidate (py ''content'')) (\<lambda>content.
     and_then (item_key content (py ''parts'')) (\<lambda>parts.
     and_then (item_0 parts) (\<lambda>part.
     item_key part (py ''text''))))))"

text \<open>\<^verbatim>\<open>generated_text.split('\n')\<close> with the loop and the fallback: only a str has \<^verbatim>\<open>split\<close>.\<close>

fun parse_generated :: "pyval \<Rightarrow> py_exception + pystr list \<times> pystr" where
  "parse_generated (PStr generated_text) = Inr (parse_reply generated_text)"
| "parse_generated v =
     Inl (AttributeError (quoted (type_name v) @ py '' object has no attribute '' @ quoted (py ''split'')))"

text \<open>
  The body of the \<^verbatim>\<open>try\<close>. The prompt is built before it from the department and the
  ratings and only goes out with the request; the reply is the environment's, so the
  prompt does not appear here.
\<close>

definition try_body :: "post_outcome \<Rightarrow> py_exception + pystr list \<times> pystr" where
  "try_body http =
     (case http of
        PostRaises e \<Rightarrow> Inl e
      | PostReturns response \<Rightarrow>
          and_then (raise_for_status response) (\<lambda>_.
          and_then (json_result response) (\<lambda>result.
          and_then (has_candidates result) (\<lambda>ok.
            if ok then and_then (candidate_text result) parse_generated
            else Inr ([py ''Error: No recommendations could be generated by the AI. The response structure was unexpected.''], [])))))"

text \<open>The three \<^verbatim>\<open>except\<close> clauses, in their order: the first class that matches decides.\<close>

fun except_clauses :: "py_exception \<Rightarrow> pystr list \<times> pystr" where
  "except_clauses (RequestException m) =
     ([py ''Error connecting to AI service: '' @ m @
       py ''. Please check your API key and network connection.''], [])"
| "except_clauses (RequestsJSONDecodeError m) =
     ([py ''Error connecting to AI service: '' @ m @
       py ''. Please check your API key and network connection.''], [])"
| "except_clauses (JSONDecodeError m) =
     ([py ''Error: Could not parse AI response. The response was not valid JSON.''], [])"
| "except_clauses e = ([py ''An unexpected error occurred: '' @ str_exc e], [])"

definition get_gemini_recommendations :: "post_outcome \<Rightarrow> pystr list \<times> pystr" where
  "get_gemini_recommendations http =
     (case try_body http of Inr result \<Rightarrow> result | Inl e \<Rightarrow> except_clauses e)"


section \<open>The question bank\<close>

definition sales_questions :: "pystr list" where
  "sales_questions = map py
     [''How clear and communicated are the overall company sales goals?'',
      ''How satisfied are you with the lead generation process and quality?'',
      ''How effective is the sales training and onboarding you received?'',
      ''Do you feel empowered to make decisions that benefit your sales efforts?'',
      ''How would you rate the tools and technologies provided for sales activities (e.g., CRM)?'',
      ''How often do you receive constructive feedback on your sales performance?'',
      ''How well do you feel your work-life balance is in this sales role?'',
      ''Do you believe there are sufficient opportunities for advancement within the sales team?'',
      ''How valued do you feel your contributions are to the overall success of the company?'',
      ''How open is the communication between the sales team and other departments?'']"

definition marketing_questions :: "pystr list" where
  "marketing_questions = map py
     [''How aligned do you feel your individual goals are with the overall marketing strategy?'',
      ''How effective do you believe the processes are for campaign development and execution?'',
      ''How satisfied are you with the level of collaboration within the marketing team?'',
      ''Do you feel you have the autonomy to explore innovative marketing approaches?'',
      ''How would you rate the resources available for professional development in marketing?'',
      ''How clear is the feedback process on your marketing initiatives and performance?'',
      ''How manageable do you find your workload in your current marketing role?'',
      ''Do you see clear pathways for career progression within the marketing department?'',
      ''How recognized do you feel for your creative contributions and marketing successes?'',
      ''How well do you understand the impact of your marketing work on the company's bottom line?'']"

definition engineering_questions :: "pystr list" where
  "engineering_questions = map py
     [''How well-defined are the project requirements and specifications you work on?'',
      ''How effective do you believe the code review processes are within your team?'',
      ''How satisfied are you with the opportunities to work with new technologies?'',
      ''Do you feel your input is valued in technical decision-making processes?'',
      ''How would you rate the quality of the tools and software you use for development?'',
      ''How often do you receive feedback on your technical skills and contributions?'',
      ''How sustainable do you find the pace and workload of your engineering projects?'',
      ''Are you aware of opportunities for specialization or leadership within the engineering organization?'',
      ''How much do you feel your technical expertise contributes to the company's innovation?'',
      ''How effective is the communication between engineering teams and other departments (e.g., product)?'']"

definition human_resources_questions :: "pystr list" where
  "human_resources_questions = map py
     [''How effectively do you believe the company's values are reflected in HR practices?'',
      ''How satisfied are you with the tools and systems used for HR management?'',
      ''How well do you feel employee grievances and concerns are addressed?'',
      ''Do you believe the performance evaluation process is fair and constructive?'',
      ''How would you rate the support provided by HR leadership and management?'',
      ''How clear is the communication regarding changes in company policies and procedures?'',
      ''How manageable do you find the workload associated with your HR responsibilities?'',
      ''Do you see opportunities for growth and specialization within the HR function?'',
      ''How valued do you feel your role is in supporting the overall employee experience?'',
      ''How effective is the collaboration between different teams within the HR department?'']"

definition finance_questions :: "pystr list" where
  "finance_questions = map py
     [''How clear and consistent are the financial reporting deadlines and expectations?'',
      ''How satisfied are you with the opportunities to develop your financial analysis skills?'',
      ''How effective do you believe the internal controls are within the finance department?'',
      ''Do you feel you have sufficient access to the data and information needed for your work?'',
      ''How would you rate the quality of the financial software and systems you use?'',
      ''How often do you receive feedback on the accuracy and efficiency of your work?'',
      ''How demanding do you find the workload during peak financial periods?'',
      ''Are you aware of opportunities for advancement or specialization within the finance team?'',
      ''How much do you feel your financial insights contribute to the company's strategic decisions?'',
      ''How effective is the communication between the finance department and other departments?'']"

definition questions :: "pystr \<Rightarrow> pystr list option" where
  "questions department =
     (if department = py ''Sales'' then Some sales_questions
      else if department = py ''Marketing'' then Some marketing_questions
      else if department = py ''Engineering'' then Some engineering_questions
      else if department = py ''Human Resources'' then Some human_resources_questions
      else if department = py ''Finance'' then Some finance_questions
      else None)"

definition departments :: "pystr list" where
  "departments = map py
     [''Please Select'', ''Sales'', ''Marketing'', ''Engineering'', ''Human Resources'', ''Finance'']"

section \<open>The script, one run at a time\<close>

text \<open>
  The hosting framework runs the whole script again on every interaction and keeps
  \<^verbatim>\<open>st.session_state\<close> between the runs. The record holds the eight keys that the script
  itself puts there; \<open>new_session\<close> is what the block of \<^verbatim>\<open>if ... not in st.session_state\<close>
  statements sets up in the first run of a session (in later runs it changes nothing).
\<close>

record session_state =
  ratings :: "pystr \<rightharpoonup> int"
  submitted :: bool
  last_submitted_department :: "pystr option"
  last_submitted_ratings :: "pystr \<rightharpoonup> int"
  recommendations :: "pystr list"
  summary :: pystr
  current_question_index :: int
  active_department :: pystr

definition new_session :: session_state where
  "new_session =
     \<lparr>ratings = Map.empty, submitted = False, last_submitted_department = None,
      last_submitted_ratings = Map.empty, recommendations = [], summary = [],
      current_question_index = 0, active_department = py ''Please Select''\<rparr>"

text \<open>
  What the widgets and the service give to one run: the value of the select box; the
  position of the slider, \<open>None\<close> when the user has not moved the slider that this run
  shows, so that \<^verbatim>\<open>st.slider\<close> returns its \<^verbatim>\<open>value\<close> argument; the button that was clicked,
  if any; and the outcome of the HTTP exchange, should this run make the call.
\<close>

datatype button = Previous | Next | Submit

record ui_input =
  selected_department :: pystr
  slider_position :: "int option"
  clicked :: "button option"
  exchange :: post_outcome

text \<open>
  An exception that no handler catches ends the run: the \<^verbatim>\<open>KeyError\<close> of
  \<^verbatim>\<open>st.secrets["GEMINI_API_KEY"]\<close>, the \<^verbatim>\<open>KeyError\<close> of \<^verbatim>\<open>questions[selected_department]\<close>, and
  the \<^verbatim>\<open>IndexError\<close> of \<^verbatim>\<open>department_questions[...]\<close>.
\<close>

datatype script_error = MissingSecret pystr | UnknownDepartment pystr | QuestionIndex int

text \<open>
  What a run leaves: the session state, whether it ended in \<^verbatim>\<open>st.rerun()\<close>, the question
  it displayed with its slider, and the buttons it created, in the order of the calls
  of \<^verbatim>\<open>st.button\<close>.
\<close>

record run_result =
  session :: session_state
  rerun :: bool
  shown_question :: "pystr option"
  buttons :: "button list"

type_synonym secrets = "pystr \<rightharpoonup> pystr"

text \<open>Line 4, at module level: it is executed at the start of every run.\<close>

definition load_api_key :: "secrets \<Rightarrow> script_error + pystr" where
  "load_api_key secs =
     (case secs (py ''GEMINI_API_KEY'') of
        None \<Rightarrow> Inl (MissingSecret (py ''GEMINI_API_KEY''))
      | Some key \<Rightarrow> Inr key)"

text \<open>\<^verbatim>\<open>department_questions[i]\<close>: a negative index counts from the end.\<close>

definition question_at :: "pystr list \<Rightarrow> int \<Rightarrow> script_error + pystr" where
  "question_at department_questions i =
     (let n = int (length department_questions) in
      if 0 \<le> i \<and> i < n then Inr (department_questions ! nat i)
      else if - n \<le> i \<and> i < 0 then Inr (department_questions ! nat (n + i))
      else Inl (QuestionIndex i))"

text \<open>The assignments made when the selected department differs from the active one.\<close>

definition reset_for :: "pystr \<Rightarrow> session_state \<Rightarrow> session_state" where
  "reset_for selected s =
     s\<lparr>active_department := selected, current_question_index := 0, ratings := Map.empty,
       submitted := False, recommendations := [], summary := []\<rparr>"

text \<open>The block that shows one question, its slider and the navigation buttons.\<close>

definition question_block :: "session_state \<Rightarrow> ui_input \<Rightarrow> script_error + run_result" where
  "question_block s a =
     (let selected = selected_department a in
      if selected \<noteq> [] \<and> selected \<noteq> py ''Please Select'' then
        (case questions selected of
           None \<Rightarrow> Inl (UnknownDepartment selected)
         | Some department_questions \<Rightarrow>
             let total_questions = int (length department_questions) in
             if \<not> submitted s then
               let s1 = (if current_question_index s \<ge> total_questions
                         then s\<lparr>current_question_index := total_questions - 1, submitted := False\<rparr>
                         else s)
               in
               (case question_at department_questions (current_question_index s1) of
                  Inl e \<Rightarrow> Inl e
                | Inr current_question \<Rightarrow>
                    let current_rating_value =
                          (case ratings s1 current_question of None \<Rightarrow> 3 | Some r \<Rightarrow> r);
                        rating =
                          (case slider_position a of None \<Rightarrow> current_rating_value | Some p \<Rightarrow> p);
                        s2 = s1\<lparr>ratings := (ratings s1)(current_question \<mapsto> rating)\<rparr>;
                        i = current_question_index s2;
                        previous = (if i > 0 then [Previous] else [])
                    in
                    if i < total_questions - 1 then
                      if i > 0 \<and> clicked a = Some Previous then
                        Inr \<lparr>session = s2\<lparr>current_question_index := i - 1\<rparr>, rerun = True,
                             shown_question = Some current_question, buttons = [Previous]\<rparr>
                      else if clicked a = Some Next then
                        Inr \<lparr>session = s2\<lparr>current_question_index := i + 1\<rparr>, rerun = True,
                             shown_question = Some current_question, buttons = previous @ [Next]\<rparr>
                      else
                        Inr \<lparr>session = s2, rerun = False,
                             shown_question = Some current_question, buttons = previous @ [Next]\<rparr>
                    else if clicked a = Some Submit then
                      Inr \<lparr>session = s2\<lparr>submitted := True,
                               last_submitted_department := Some selected,
                               last_submitted_ratings := ratings s2,
                               recommendations := [], summary := []\<rparr>,
                           rerun = True, shown_question = Some current_question, buttons = [Submit]\<rparr>
                    else
                      Inr \<lparr>session = s2, rerun = False,
                           shown_question = Some current_question, buttons = [Submit]\<rparr>)
             else Inr \<lparr>session = s, rerun = False, shown_question = None, buttons = []\<rparr>)
      else Inr \<lparr>session = s, rerun = False, shown_question = None, buttons = []\<rparr>)"

text \<open>
  The block after a submission: the call of \<^verbatim>\<open>get_gemini_recommendations\<close> when nothing
  is cached, followed by \<^verbatim>\<open>st.rerun()\<close>. The value \<^verbatim>\<open>None\<close> and the empty string are false.
\<close>

definition results_block :: "session_state \<Rightarrow> post_outcome \<Rightarrow> session_state \<times> bool" where
  "results_block s outcome =
     (if submitted s \<and> (case last_submitted_department s of None \<Rightarrow> False | Some d \<Rightarrow> d \<noteq> []) then
        if recommendations s = [] \<and> summary s = [] then
          (case get_gemini_recommendations outcome of
             (recs, summ) \<Rightarrow> (s\<lparr>recommendations := recs, summary := summ\<rparr>, True))
        else (s, False)
      else (s, False))"

text \<open>The script from the question block to its end.\<close>

definition page :: "session_state \<Rightarrow> ui_input \<Rightarrow> script_error + run_result" where
  "page s a =
     (case question_block s a of
        Inl e \<Rightarrow> Inl e
      | Inr r \<Rightarrow>
          if rerun r then Inr r
          else (case results_block (session r) (exchange a) of
                  (s', again) \<Rightarrow> Inr (r\<lparr>session := s', rerun := again\<rparr>)))"

text \<open>One run of the script.\<close>

definition app :: "secrets \<Rightarrow> session_state \<Rightarrow> ui_input \<Rightarrow> script_error + run_result" where
  "app secs s a =
     (case load_api_key secs of
        Inl e \<Rightarrow> Inl e
      | Inr key \<Rightarrow>
          let selected = selected_department a in
          if selected \<noteq> active_department s then
            if selected \<noteq> py ''Please Select'' then
              Inr \<lparr>session = reset_for selected s, rerun = True, shown_question = None, buttons = []\<rparr>
            else page (reset_for selected s) a
          else page s a)"

section \<open>Sequences of runs\<close>

text \<open>The runs of a session, one input after the other; an uncaught exception ends them.\<close>

fun run_all :: "secrets \<Rightarrow> session_state \<Rightarrow> ui_input list \<Rightarrow> script_error + session_state" where
  "run_all secs s [] = Inr s"
| "run_all secs s (a # inputs) =
     (case app secs s a of Inl e \<Rightarrow> Inl e | Inr r \<Rightarrow> run_all secs (session r) inputs)"

text \<open>
  The questions that the user has touched in the course of these runs: those displayed in
  a run whose slider the user had moved (\<open>moved\<close> is the contribution of one run).
\<close>

definition moved :: "run_result \<Rightarrow> ui_input \<Rightarrow> pystr set" where
  "moved r a = (case (shown_question r, slider_position a) of (Some q, Some p) \<Rightarrow> {q} | _ \<Rightarrow> {})"

fun touched :: "secrets \<Rightarrow> session_state \<Rightarrow> ui_input list \<Rightarrow> pystr set" where
  "touched secs s [] = {}"
| "touched secs s (a # inputs) =
     (case app secs s a of
        Inl e \<Rightarrow> {}
      | Inr r \<Rightarrow> moved r a \<union> touched secs (session r) inputs)"

text \<open>The slider has the bounds 1 and 5: a position chosen by the user lies between them.\<close>

definition slider_in_range :: "ui_input \<Rightarrow> bool" where
  "slider_in_range a \<longleftrightarrow> (case slider_position a of None \<Rightarrow> True | Some p \<Rightarrow> 1 \<le> p \<and> p \<le> 5)"

text \<open>
  One action of the user with the reruns it sets off. A run that ends in \<^verbatim>\<open>st.rerun()\<close> is
  followed at once by another with the same selection, no click, and sliders that the
  user has not moved. The count bounds the number of runs; \<open>None\<close> means it was used up.
\<close>

definition rerun_input :: "ui_input \<Rightarrow> ui_input" where
  "rerun_input a = a\<lparr>slider_position := None, clicked := None\<rparr>"

fun interact :: "nat \<Rightarrow> secrets \<Rightarrow> session_state \<Rightarrow> ui_input \<Rightarrow> (script_error + session_state) option" where
  "interact 0 secs s a = None"
| "interact (Suc n) secs s a =
     (case app secs s a of
        Inl e \<Rightarrow> Some (Inl e)
      | Inr r \<Rightarrow> if rerun r then interact n secs (session r) (rerun_input a)
                 else Some (Inr (session r)))"

text \<open>A sequence of actions of the user, each with its reruns; it stops at the first failure.\<close>

fun actions :: "nat \<Rightarrow> secrets \<Rightarrow> session_state \<Rightarrow> ui_input list \<Rightarrow> (script_error + session_state) option" where
  "actions n secs s [] = Some (Inr s)"
| "actions n secs s (a # inputs) =
     (case interact n secs s a of
        Some (Inr s') \<Rightarrow> actions n secs s' inputs
      | other \<Rightarrow> other)"

section \<open>Inputs for the scenarios\<close>

text \<open>
  Secrets that hold a key; the user looking at a department without touching anything,
  while the service is out of reach; the same with a button clicked or the slider moved.
\<close>

definition configured :: secrets where
  "configured = [py ''GEMINI_API_KEY'' \<mapsto> py ''k'']"

definition viewing :: "string \<Rightarrow> ui_input" where
  "viewing d = \<lparr>selected_department = py d, slider_position = None, clicked = None,
                exchange = PostRaises (RequestException (py ''offline''))\<rparr>"

definition press :: "button \<Rightarrow> ui_input \<Rightarrow> ui_input" where
  "press b a = a\<lparr>clicked := Some b\<rparr>"

definition slide :: "int \<Rightarrow> ui_input \<Rightarrow> ui_input" where
  "slide p a = a\<lparr>slider_position := Some p\<rparr>"

text \<open>Sales is selected in a new session and \<^verbatim>\<open>Next\<close> is clicked eight times.\<close>

definition sales_to_ninth :: "ui_input list" where
  "sales_to_ninth = viewing ''Sales'' # replicate 8 (press Next (viewing ''Sales''))"

text \<open>
  The runs of a session in which Sales is selected, the slider of the first question is
  moved to 5, and \<^verbatim>\<open>Next\<close> is clicked nine times, each click with its rerun.
\<close>

definition sales_runs :: "ui_input list" where
  "sales_runs =
     [viewing ''Sales'', viewing ''Sales'', slide 5 (viewing ''Sales'')] @
     concat (replicate 9 [press Next (viewing ''Sales''), viewing ''Sales''])"

text \<open>A session in which the Sales questionnaire was submitted and answered by the service.\<close>

definition sales_done :: session_state where
  "sales_done =
     \<lparr>ratings = [sales_questions ! 0 \<mapsto> 4], submitted = True,
      last_submitted_department = Some (py ''Sales''),
      last_submitted_ratings = [sales_questions ! 0 \<mapsto> 4],
      recommendations = [py ''- Rest''], summary = py ''Fine'',
      current_question_index = 9, active_department = py ''Sales''\<rparr>"

text \<open>A session at the first question of Sales, rated 4.\<close>

definition sales_started :: session_state where
  "sales_started =
     \<lparr>ratings = [sales_questions ! 0 \<mapsto> 4], submitted = False,
      last_submitted_department = None, last_submitted_ratings = Map.empty,
      recommendations = [], summary = [],
      current_question_index = 0, active_department = py ''Sales''\<rparr>"

section \<open>The invariant of the questionnaire\<close>

text \<open>
  What holds of the session state between any two runs, with \<open>T\<close> the questions touched so
  far: the index is not negative; every recorded rating lies in 1..5 and is 3 unless its
  question was touched; and when the active department has questions, the index is
  within their list, the rated questions are among them, and every question before the
  current one is rated.
\<close>

definition wizard_inv :: "session_state \<Rightarrow> pystr set \<Rightarrow> bool" where
  "wizard_inv s T \<longleftrightarrow>
     0 \<le> current_question_index s \<and>
     (\<forall>q v. ratings s q = Some v \<longrightarrow> 1 \<le> v \<and> v \<le> 5 \<and> (q \<notin> T \<longrightarrow> v = 3)) \<and>
     (\<forall>qs. questions (active_department s) = Some qs \<longrightarrow>
        current_question_index s < int (length qs) \<and>
        dom (ratings s) \<subseteq> set qs \<and>
        (\<forall>j. int j < current_question_index s \<longrightarrow> qs ! j \<in> dom (ratings s)))"

section \<open>Properties of the response parser\<close>

subsection \<open>Evaluation on literals and the loop, line by line\<close>

lemmas parser_eval = parse_reply_def parse_lines_def parse_line_def py_def strip_def
  startswith_def isspace_def

lemma parse_line_summary:
  "startswith (strip l) (py ''Summary:'') \<Longrightarrow>
   parse_line (r, s, f) l = (r, strip (drop (length (py ''Summary:'')) (strip l)), True)"
  by (simp add: parse_line_def Let_def)

lemma parse_line_other_found:
  "\<not> startswith (strip l) (py ''Summary:'') \<Longrightarrow> parse_line (r, s, True) l = (r, s, True)"
  by (simp add: parse_line_def Let_def)

lemma parse_line_other_open:
  "\<not> startswith (strip l) (py ''Summary:'') \<Longrightarrow>
   parse_line (r, s, False) l =
     (if strip l = [] then (r, s, False) else (r @ [replace_stars (strip l)], s, False))"
  by (auto simp add: parse_line_def Let_def startswith_def py_def)

lemma parse_lines_Nil: "parse_lines st [] = st"
  by (simp add: parse_lines_def)

lemma parse_lines_Cons: "parse_lines st (l # ls) = parse_lines (parse_line st l) ls"
  by (simp add: parse_lines_def)

lemma parse_lines_append: "parse_lines st (xs @ ys) = parse_lines (parse_lines st xs) ys"
  by (simp add: parse_lines_def)

lemma parse_lines_found_recs:
  "\<exists>s'. parse_lines (r, s, True) ls = (r, s', True)"
proof (induction ls arbitrary: s)
  case Nil
  show ?case by (simp add: parse_lines_Nil)
next
  case (Cons l ls)
  show ?case
  proof (cases "startswith (strip l) (py ''Summary:'')")
    case True
    then show ?thesis
      using Cons.IH by (simp add: parse_lines_Cons parse_line_summary)
  next
    case False
    then show ?thesis
      using Cons.IH by (simp add: parse_lines_Cons parse_line_other_found)
  qed
qed

lemma parse_lines_found_quiet:
  "\<forall>x\<in>set ls. \<not> startswith (strip x) (py ''Summary:'') \<Longrightarrow>
   parse_lines (r, s, True) ls = (r, s, True)"
  by (induction ls) (simp_all add: parse_lines_Nil parse_lines_Cons parse_line_other_found)

lemma parse_lines_upto_summary:
  "startswith (strip l) (py ''Summary:'') \<Longrightarrow>
   \<exists>r s. parse_lines st (pre @ [l]) = (r, s, True) \<and> s = strip (drop (length (py ''Summary:'')) (strip l))"
proof -
  assume a: "startswith (strip l) (py ''Summary:'')"
  obtain r s f where st: "parse_lines st pre = (r, s, f)"
    by (cases "parse_lines st pre") auto
  show ?thesis
    using a st by (simp add: parse_lines_append parse_lines_Cons parse_lines_Nil parse_line_summary)
qed

lemma parse_lines_open_no_summary:
  "\<forall>x\<in>set ls. \<not> startswith (strip x) (py ''Summary:'') \<Longrightarrow>
   parse_lines (r, s, False) ls =
     (r @ map (\<lambda>x. replace_stars (strip x)) (filter (\<lambda>x. strip x \<noteq> []) ls), s, False)"
  by (induction ls arbitrary: r) (simp_all add: parse_lines_Nil parse_lines_Cons parse_line_other_open)

subsection \<open>Lines after the summary line\<close>

text \<open>
  Claim C1, as amended. In the loop over the lines, once a line that starts with
  \<^verbatim>\<open>Summary:\<close> after trimming has been read, no later line is appended to the
  recommendations; a run of later lines none of which starts with \<^verbatim>\<open>Summary:\<close> leaves
  the whole loop state as it was; and a later line that does start with \<^verbatim>\<open>Summary:\<close>
  replaces the recorded summary, so that the last such line decides it. The branch of
  the source that records the summary is the first of the chain and does not test
  \<^verbatim>\<open>summary_found\<close>.
\<close>

theorem summary_line_closes_recommendations:
  assumes "startswith (strip l) (py ''Summary:'')"
  shows "fst (parse_lines st (pre @ l # post)) = fst (parse_lines st (pre @ [l])) \<and>
         ((\<forall>x\<in>set post. \<not> startswith (strip x) (py ''Summary:'')) \<longrightarrow>
            parse_lines st (pre @ l # post) = parse_lines st (pre @ [l])) \<and>
         (\<forall>mid l' rest. post = mid @ l' # rest \<and> startswith (strip l') (py ''Summary:'') \<and>
            (\<forall>x\<in>set rest. \<not> startswith (strip x) (py ''Summary:'')) \<longrightarrow>
            fst (snd (parse_lines st (pre @ l # post))) =
              strip (drop (length (py ''Summary:'')) (strip l')))"
proof -
  obtain r s where upto: "parse_lines st (pre @ [l]) = (r, s, True)"
    using parse_lines_upto_summary [OF assms] by blast
  have split: "parse_lines st (pre @ l # post) = parse_lines (r, s, True) post"
    using upto parse_lines_append [of st "pre @ [l]" post] by simp
  have recs: "fst (parse_lines st (pre @ l # post)) = fst (parse_lines st (pre @ [l]))"
    using parse_lines_found_recs [of r s post] by (auto simp add: split upto)
  have quiet: "(\<forall>x\<in>set post. \<not> startswith (strip x) (py ''Summary:'')) \<longrightarrow>
            parse_lines st (pre @ l # post) = parse_lines st (pre @ [l])"
    by (simp add: split upto parse_lines_found_quiet)
  have last_wins: "fst (snd (parse_lines st (pre @ l # post))) =
              strip (drop (length (py ''Summary:'')) (strip l'))"
    if p: "post = mid @ l' # rest" and l': "startswith (strip l') (py ''Summary:'')"
      and q: "\<forall>x\<in>set rest. \<not> startswith (strip x) (py ''Summary:'')"
    for mid l' rest
  proof -
    obtain r' s' where m: "parse_lines (r, s, True) (mid @ [l']) = (r', s', True)"
      and s': "s' = strip (drop (length (py ''Summary:'')) (strip l'))"
      using parse_lines_upto_summary [OF l', of "(r, s, True)" mid] by blast
    have "parse_lines (r, s, True) post = parse_lines (r', s', True) rest"
      using m parse_lines_append [of "(r, s, True)" "mid @ [l']" rest] by (simp add: p)
    then show ?thesis
      using q s' by (simp add: split parse_lines_found_quiet)
  qed
  show ?thesis
    using recs quiet last_wins by blast
qed

theorem summary_line_closes_recommendations_witness:
  "startswith (strip (py ''Summary: S'')) (py ''Summary:'') \<and>
   \<not> startswith (strip (py ''- late'')) (py ''Summary:'') \<and>
   \<not> startswith (strip (py ''more'')) (py ''Summary:'') \<and>
   parse_lines ([], [], False) ([py ''- early''] @ py ''Summary: S'' # [py ''- late'', py ''more'']) =
     ([py ''- early''], py ''S'', True) \<and>
   fst (snd (parse_lines ([], [], False)
      ([py ''- early''] @ py ''Summary: S'' # ([py ''- late''] @ py ''Summary: T'' # [py ''more''])))) = py ''T''"
proof -
  have h: "startswith (strip (py ''Summary: S'')) (py ''Summary:'')"
    by (simp add: parser_eval)
  have h2: "startswith (strip (py ''Summary: T'')) (py ''Summary:'')"
    by (simp add: parser_eval)
  have q: "\<forall>x\<in>set [py ''- late'', py ''more'']. \<not> startswith (strip x) (py ''Summary:'')"
    by (simp add: parser_eval)
  have q2: "\<forall>x\<in>set [py ''more'']. \<not> startswith (strip x) (py ''Summary:'')"
    by (simp add: parser_eval)
  have e: "parse_lines ([], [], False) ([py ''- early''] @ [py ''Summary: S'']) = ([py ''- early''], py ''S'', True)"
    by (simp add: parser_eval)
  have t: "strip (drop (length (py ''Summary:'')) (strip (py ''Summary: T''))) = py ''T''"
    by (simp add: parser_eval)
  note a = summary_line_closes_recommendations [OF h, of "([], [], False)" "[py ''- early'']" "[py ''- late'', py ''more'']"]
  note b = summary_line_closes_recommendations [OF h, of "([], [], False)" "[py ''- early'']" "[py ''- late''] @ py ''Summary: T'' # [py ''more'']"]
  have c1: "parse_lines ([], [], False) ([py ''- early''] @ py ''Summary: S'' # [py ''- late'', py ''more'']) =
     ([py ''- early''], py ''S'', True)"
    using a q e by metis
  have c2: "fst (snd (parse_lines ([], [], False)
      ([py ''- early''] @ py ''Summary: S'' # ([py ''- late''] @ py ''Summary: T'' # [py ''more''])))) = py ''T''"
    using b h2 q2 t by metis
  show ?thesis using h q c1 c2 by simp
qed

text \<open>
  Claim C1 as stated fails: in the reply of two lines \<^verbatim>\<open>Summary: A\<close> and \<^verbatim>\<open>Summary: B\<close>
  the second line comes after a summary line and changes the recorded summary from
  \<^verbatim>\<open>A\<close> to \<^verbatim>\<open>B\<close>.
\<close>

theorem later_summary_line_replaces_summary:
  "startswith (strip (py ''Summary: A'')) (py ''Summary:'') \<and>
   parse_lines ([], [], False) ([] @ py ''Summary: A'' # [py ''Summary: B'']) = ([], py ''B'', True) \<and>
   parse_lines ([], [], False) ([] @ [py ''Summary: A'']) = ([], py ''A'', True) \<and>
   parse_reply (py ''Summary: A\<newline>Summary: B'') = ([], py ''B'') \<and>
   parse_reply (py ''Summary: A'') = ([], py ''A'')"
  by (simp add: parser_eval)

subsection \<open>Bullets followed by a summary\<close>

text \<open>
  Claim C10. The reply \<^verbatim>\<open>- Improve X\<close>, \<^verbatim>\<open>- Improve Y\<close>, \<^verbatim>\<open>Summary: Do Z\<close> (three lines)
  is parsed into the two bullets, hyphens kept, and the summary \<^verbatim>\<open>Do Z\<close>.
\<close>

theorem bullets_then_summary:
  "parse_reply (py ''- Improve X\<newline>- Improve Y\<newline>Summary: Do Z'') =
     ([py ''- Improve X'', py ''- Improve Y''], py ''Do Z'')"
  by (simp add: parser_eval)

subsection \<open>Emphasis markers\<close>

text \<open>
  After \<^verbatim>\<open>replace('**', '')\<close> no marker is left, so every string of the returned
  recommendations is free of markers, for every reply.
\<close>

lemma replace_stars_head: "b \<noteq> 42 \<Longrightarrow> \<exists>ys. replace_stars (b # cs) = b # ys"
  by (cases cs) auto

lemma has_stars_Cons: "has_stars (a # xs) \<longleftrightarrow> (a = 42 \<and> (\<exists>ys. xs = 42 # ys)) \<or> has_stars xs"
  by (cases xs) auto

lemma replace_stars_clean: "\<not> has_stars (replace_stars s)"
proof (induction s rule: replace_stars.induct)
  case (1 a b cs)
  show ?case
  proof (cases "a = 42 \<and> b = 42")
    case True
    then show ?thesis using 1 by simp
  next
    case False
    then have ih: "\<not> has_stars (replace_stars (b # cs))" using 1 by simp
    show ?thesis
    proof (cases "a = 42")
      case True
      with False have "b \<noteq> 42" by simp
      then obtain ys where "replace_stars (b # cs) = b # ys"
        using replace_stars_head by blast
      then show ?thesis using False ih \<open>b \<noteq> 42\<close> by (simp add: has_stars_Cons)
    next
      case na: False
      then show ?thesis using False ih by (simp add: has_stars_Cons)
    qed
  qed
qed simp_all

lemma parse_line_clean:
  "\<forall>x\<in>set (fst st). \<not> has_stars x \<Longrightarrow> \<forall>x\<in>set (fst (parse_line st l)). \<not> has_stars x"
  by (cases st) (auto simp add: parse_line_def Let_def replace_stars_clean)

lemma parse_lines_clean:
  "\<forall>x\<in>set (fst st). \<not> has_stars x \<Longrightarrow> \<forall>x\<in>set (fst (parse_lines st ls)). \<not> has_stars x"
proof (induction ls arbitrary: st)
  case Nil
  then show ?case by (simp add: parse_lines_def)
next
  case (Cons l ls)
  have "\<forall>x\<in>set (fst (parse_line st l)). \<not> has_stars x"
    using Cons.prems by (rule parse_line_clean)
  then show ?case
    using Cons.IH [of "parse_line st l"] by (simp add: parse_lines_def)
qed

lemma recommendations_without_markers:
  "\<forall>x\<in>set (fst (parse_reply t)). \<not> has_stars x"
proof -
  have "\<forall>x\<in>set (fst (parse_lines ([], [], False) (split_lines t))). \<not> has_stars x"
    by (rule parse_lines_clean) simp
  then show ?thesis
    by (cases "parse_lines ([], [], False) (split_lines t)")
      (auto simp add: parse_reply_def replace_stars_clean)
qed

text \<open>
  Claim C4 at the input \<^verbatim>\<open>Summary: **Do Z**\<close>: the summary is the rest of the line after
  \<^verbatim>\<open>Summary:\<close>, trimmed, and \<^verbatim>\<open>replace('**', '')\<close> is not applied to it, so the markers
  stay in the returned summary. Both branches that append a recommendation, and the
  fallback, do apply it (\<open>recommendations_without_markers\<close>).
\<close>

theorem summary_keeps_emphasis_markers:
  "parse_reply (py ''Summary: **Do Z**'') = ([], py ''**Do Z**'')"
  by (simp add: parser_eval)

subsection \<open>Replies without a summary line\<close>

text \<open>
  Claim C5, as amended. For a reply none of whose lines starts with \<^verbatim>\<open>Summary:\<close> after
  trimming: when some line is not blank, the recommendations are the non-blank lines,
  trimmed and without markers, in order, and the summary is empty; the placeholder
  summary is returned, with the whole trimmed reply as the one recommendation, only
  when every line is blank. The single line \<^verbatim>\<open>Everything is fine.\<close> is of the first kind:
  the third branch of the loop appends it, so the fallback is not taken.
\<close>

theorem reply_without_summary_line:
  assumes "\<forall>x\<in>set (split_lines t). \<not> startswith (strip x) (py ''Summary:'')"
  shows "parse_reply t =
     (if \<forall>x\<in>set (split_lines t). strip x = []
      then ([replace_stars (strip t)], py ''No distinct summary provided by AI.'')
      else (map (\<lambda>x. replace_stars (strip x)) (filter (\<lambda>x. strip x \<noteq> []) (split_lines t)), []))"
proof -
  have "parse_lines ([], [], False) (split_lines t) =
      (map (\<lambda>x. replace_stars (strip x)) (filter (\<lambda>x. strip x \<noteq> []) (split_lines t)), [], False)"
    using parse_lines_open_no_summary [OF assms, of "[]" "[]"] by simp
  then show ?thesis
    by (simp add: parse_reply_def filter_empty_conv)
qed

theorem reply_without_summary_line_witness:
  "split_lines (py ''Everything is fine.'') = [py ''Everything is fine.''] \<and>
   \<not> startswith (strip (py ''Everything is fine.'')) (py ''Summary:'') \<and>
   parse_reply (py ''Everything is fine.'') = ([py ''Everything is fine.''], [])"
proof -
  have h: "\<forall>x\<in>set (split_lines (py ''Everything is fine.'')). \<not> startswith (strip x) (py ''Summary:'')"
    by (simp add: parser_eval)
  have l: "split_lines (py ''Everything is fine.'') = [py ''Everything is fine.'']"
    by (simp add: parser_eval)
  have s: "strip (py ''Everything is fine.'') = py ''Everything is fine.''"
    by (simp add: parser_eval)
  have r: "replace_stars (py ''Everything is fine.'') = py ''Everything is fine.''"
    by (simp add: parser_eval)
  have n: "py ''Everything is fine.'' \<noteq> []"
    by (simp add: parser_eval)
  have "parse_reply (py ''Everything is fine.'') = ([py ''Everything is fine.''], [])"
    using reply_without_summary_line [OF h] by (simp add: l s r n)
  then show ?thesis
    using h l by simp
qed

text \<open>
  Claim C5 as stated fails: for \<^verbatim>\<open>Everything is fine.\<close> the returned summary is not the
  placeholder.
\<close>

theorem plain_line_gets_empty_summary:
  "parse_reply (py ''Everything is fine.'') \<noteq>
     ([py ''Everything is fine.''], py ''No distinct summary provided by AI.'')"
  by (simp add: parser_eval)

section \<open>Properties of \<^verbatim>\<open>get_gemini_recommendations\<close>\<close>

subsection \<open>Which exceptions the operations on the decoded value raise\<close>














subsection \<open>Failures are returned, not raised\<close>



subsection \<open>A decoded body without the text of a candidate\<close>




section \<open>Properties of the questionnaire\<close>

subsection \<open>The question bank and the blocks of the script\<close>

lemma questions_Some:
  "questions d = Some qs \<Longrightarrow> length qs = 10 \<and> d \<noteq> [] \<and> d \<noteq> py ''Please Select''"
  by (auto simp add: questions_def py_def sales_questions_def marketing_questions_def
      engineering_questions_def human_resources_questions_def finance_questions_def
      split: if_splits)

lemma questions_Sales: "questions (py ''Sales'') = Some sales_questions"
  by (simp add: questions_def)

lemma length_sales: "length sales_questions = 10"
  by (simp add: sales_questions_def)

lemma distinct_sales: "distinct sales_questions"
  by (simp add: sales_questions_def py_def)

lemma nth_sales: "i < 10 \<Longrightarrow> j < 10 \<Longrightarrow> sales_questions ! i = sales_questions ! j \<longleftrightarrow> i = j"
  using distinct_sales by (simp add: nth_eq_iff_index_eq length_sales)

lemma department_names:
  "py ''Sales'' \<noteq> py ''Please Select''" "py ''Please Select'' \<noteq> py ''Sales''"
  "py ''Sales'' \<noteq> []" "py ''Marketing'' \<noteq> py ''Sales''"
  "py ''Marketing'' \<noteq> py ''Please Select''"
  by (simp_all add: py_def)

lemmas scenario_eval = app_def page_def question_block_def results_block_def reset_for_def
  question_at_def load_api_key_def new_session_def Let_def rerun_input_def
  configured_def viewing_def press_def slide_def
  questions_Sales length_sales nth_sales department_names

lemma load_api_key_present: "secs (py ''GEMINI_API_KEY'') = Some k \<Longrightarrow> load_api_key secs = Inr k"
  by (simp add: load_api_key_def)

lemma app_same_department:
  "secs (py ''GEMINI_API_KEY'') = Some k \<Longrightarrow> selected_department a = active_department s \<Longrightarrow>
   app secs s a = page s a"
  by (simp add: app_def load_api_key_def)

lemma question_block_shows:
  assumes "questions (selected_department a) = Some qs" and "\<not> submitted s"
    and "0 \<le> current_question_index s" and "current_question_index s < int (length qs)"
  shows "question_block s a =
     (let i = current_question_index s;
          q = qs ! nat i;
          v = (case slider_position a of
                 None \<Rightarrow> (case ratings s q of None \<Rightarrow> 3 | Some r \<Rightarrow> r)
               | Some p \<Rightarrow> p);
          s2 = s\<lparr>ratings := (ratings s)(q \<mapsto> v)\<rparr>;
          previous = (if i > 0 then [Previous] else [])
      in
      if i < int (length qs) - 1 then
        if i > 0 \<and> clicked a = Some Previous then
          Inr \<lparr>session = s2\<lparr>current_question_index := i - 1\<rparr>, rerun = True,
               shown_question = Some q, buttons = [Previous]\<rparr>
        else if clicked a = Some Next then
          Inr \<lparr>session = s2\<lparr>current_question_index := i + 1\<rparr>, rerun = True,
               shown_question = Some q, buttons = previous @ [Next]\<rparr>
        else Inr \<lparr>session = s2, rerun = False, shown_question = Some q, buttons = previous @ [Next]\<rparr>
      else if clicked a = Some Submit then
        Inr \<lparr>session = s2\<lparr>submitted := True,
                 last_submitted_department := Some (selected_department a),
                 last_submitted_ratings := ratings s2,
                 recommendations := [], summary := []\<rparr>,
             rerun = True, shown_question = Some q, buttons = [Submit]\<rparr>
      else Inr \<lparr>session = s2, rerun = False, shown_question = Some q, buttons = [Submit]\<rparr>)"
  using assms questions_Some [OF assms(1)]
  by (simp add: question_block_def question_at_def Let_def)

lemma question_block_hidden:
  assumes "questions (selected_department a) = None \<or> submitted s"
    and "question_block s a = Inr r"
  shows "r = \<lparr>session = s, rerun = False, shown_question = None, buttons = []\<rparr>"
  using assms
  by (auto simp add: question_block_def Let_def split: if_splits option.splits)

lemma question_block_rates_shown:
  "question_block s a = Inr r \<Longrightarrow> shown_question r \<noteq> Some q \<Longrightarrow>
   ratings (session r) q = ratings s q"
  by (auto simp add: question_block_def Let_def split: if_splits option.splits sum.splits)

lemma results_block_keeps:
  "results_block s outcome = (s', again) \<Longrightarrow>
     ratings s' = ratings s \<and> current_question_index s' = current_question_index s \<and>
     active_department s' = active_department s \<and> submitted s' = submitted s \<and>
     last_submitted_ratings s' = last_submitted_ratings s \<and>
     last_submitted_department s' = last_submitted_department s"
  by (auto simp add: results_block_def split: if_splits prod.splits)

lemma page_cases:
  assumes "page s a = Inr r"
  obtains r0 where "question_block s a = Inr r0" "shown_question r = shown_question r0"
    "ratings (session r) = ratings (session r0)"
    "current_question_index (session r) = current_question_index (session r0)"
    "active_department (session r) = active_department (session r0)"
    "submitted (session r) = submitted (session r0)"
    "last_submitted_ratings (session r) = last_submitted_ratings (session r0)"
    "last_submitted_department (session r) = last_submitted_department (session r0)"
proof (cases "question_block s a")
  case (Inl e)
  then show ?thesis using assms by (simp add: page_def)
next
  case (Inr r0)
  show ?thesis
  proof (cases "rerun r0")
    case True
    then have "r = r0" using assms Inr by (simp add: page_def)
    then show ?thesis using that [of r0] Inr by simp
  next
    case False
    obtain s' again where rb: "results_block (session r0) (exchange a) = (s', again)"
      by (cases "results_block (session r0) (exchange a)") auto
    then have "r = r0\<lparr>session := s', rerun := again\<rparr>"
      using assms Inr False by (simp add: page_def)
    then show ?thesis
      using that [of r0] Inr results_block_keeps [OF rb] by simp
  qed
qed

lemma page_please_select:
  "selected_department a = py ''Please Select'' \<Longrightarrow> \<not> submitted s \<Longrightarrow>
   page s a = Inr \<lparr>session = s, rerun = False, shown_question = None, buttons = []\<rparr>"
  by (simp add: page_def question_block_def results_block_def Let_def)

lemma page_navigation:
  assumes "questions (selected_department a) = Some qs" and "\<not> submitted s"
    and "0 \<le> current_question_index s" and "current_question_index s < int (length qs) - 1"
  shows "page s a =
     (let i = current_question_index s;
          q = qs ! nat i;
          v = (case slider_position a of
                 None \<Rightarrow> (case ratings s q of None \<Rightarrow> 3 | Some r \<Rightarrow> r)
               | Some p \<Rightarrow> p);
          s2 = s\<lparr>ratings := (ratings s)(q \<mapsto> v)\<rparr>;
          previous = (if i > 0 then [Previous] else [])
      in
      if i > 0 \<and> clicked a = Some Previous then
        Inr \<lparr>session = s2\<lparr>current_question_index := i - 1\<rparr>, rerun = True,
             shown_question = Some q, buttons = [Previous]\<rparr>
      else if clicked a = Some Next then
        Inr \<lparr>session = s2\<lparr>current_question_index := i + 1\<rparr>, rerun = True,
             shown_question = Some q, buttons = previous @ [Next]\<rparr>
      else Inr \<lparr>session = s2, rerun = False, shown_question = Some q, buttons = previous @ [Next]\<rparr>)"
proof -
  have "current_question_index s < int (length qs)"
    using assms(4) by simp
  from question_block_shows [OF assms(1,2,3) this] assms(2,4) show ?thesis
    by (simp add: page_def results_block_def Let_def)
qed

lemma page_last_question:
  assumes "questions (selected_department a) = Some qs" and "\<not> submitted s"
    and "current_question_index s = int (length qs) - 1" and "clicked a \<noteq> Some Submit"
  shows "page s a =
     (let q = qs ! nat (current_question_index s);
          v = (case slider_position a of
                 None \<Rightarrow> (case ratings s q of None \<Rightarrow> 3 | Some r \<Rightarrow> r)
               | Some p \<Rightarrow> p)
      in Inr \<lparr>session = s\<lparr>ratings := (ratings s)(q \<mapsto> v)\<rparr>, rerun = False,
              shown_question = Some q, buttons = [Submit]\<rparr>)"
proof -
  have "0 \<le> current_question_index s" "current_question_index s < int (length qs)"
    using assms(3) questions_Some [OF assms(1)] by simp_all
  from question_block_shows [OF assms(1,2) this] assms(2,3,4) show ?thesis
    by (simp add: page_def results_block_def Let_def)
qed

lemma app_cases:
  assumes "app secs s a = Inr r"
  obtains "selected_department a \<noteq> active_department s"
      "selected_department a \<noteq> py ''Please Select''"
      "r = \<lparr>session = reset_for (selected_department a) s, rerun = True,
            shown_question = None, buttons = []\<rparr>"
  | "selected_department a \<noteq> active_department s"
      "selected_department a = py ''Please Select''"
      "page (reset_for (selected_department a) s) a = Inr r"
  | "selected_department a = active_department s" "page s a = Inr r"
  using assms
  by (auto simp add: app_def Let_def split: sum.splits if_splits)

lemma app_rates_shown:
  assumes "app secs s a = Inr r" and "selected_department a = active_department s"
    and "shown_question r \<noteq> Some q"
  shows "ratings (session r) q = ratings s q"
  using assms(1)
proof (cases rule: app_cases)
  case 3
  from 3(2) obtain r0 where "question_block s a = Inr r0"
    "shown_question r = shown_question r0" "ratings (session r) = ratings (session r0)"
    by (rule page_cases)
  then show ?thesis
    using question_block_rates_shown [of s a r0 q] assms(3) by simp
qed (use assms(2) in simp_all)

subsection \<open>The invariant is kept by every run\<close>

lemma wizard_inv_cong:
  "ratings s' = ratings s \<Longrightarrow> current_question_index s' = current_question_index s \<Longrightarrow>
   active_department s' = active_department s \<Longrightarrow> wizard_inv s' T = wizard_inv s T"
  by (simp add: wizard_inv_def)

lemma wizard_inv_reset: "wizard_inv (reset_for d s) T"
  by (auto simp add: wizard_inv_def reset_for_def dest: questions_Some)

lemma wizard_inv_mono: "wizard_inv s T \<Longrightarrow> T \<subseteq> T' \<Longrightarrow> wizard_inv s T'"
  by (auto simp add: wizard_inv_def)

lemma wizard_inv_new: "wizard_inv new_session {}"
  by (simp add: wizard_inv_def new_session_def questions_def py_def)

lemma wizard_inv_rate:
  assumes inv: "wizard_inv s T" and qs: "questions (active_department s) = Some qs"
    and q: "q = qs ! nat (current_question_index s)"
    and v: "1 \<le> v" "v \<le> 5" "q \<notin> T' \<longrightarrow> v = 3" and sub: "T \<subseteq> T'"
    and r': "ratings s' = (ratings s)(q \<mapsto> v)" and a': "active_department s' = active_department s"
    and i': "0 \<le> current_question_index s'" "current_question_index s' < int (length qs)"
       "current_question_index s' \<le> current_question_index s + 1"
  shows "wizard_inv s' T'"
proof -
  let ?i = "current_question_index s"
  from inv qs have i: "0 \<le> ?i" "?i < int (length qs)"
    and d: "dom (ratings s) \<subseteq> set qs"
    and pre: "\<And>j. int j < ?i \<Longrightarrow> qs ! j \<in> dom (ratings s)"
    and old: "\<And>k w. ratings s k = Some w \<Longrightarrow> 1 \<le> w \<and> w \<le> 5 \<and> (k \<notin> T \<longrightarrow> w = 3)"
    by (auto simp add: wizard_inv_def)
  have qin: "q \<in> set qs"
    using i q by simp
  have vals: "\<forall>k w. ratings s' k = Some w \<longrightarrow> 1 \<le> w \<and> w \<le> 5 \<and> (k \<notin> T' \<longrightarrow> w = 3)"
    using v old sub by (auto simp add: r')
  have dom': "dom (ratings s') \<subseteq> set qs"
    using d qin by (auto simp add: r')
  have pre': "qs ! j \<in> dom (ratings s')" if "int j < current_question_index s'" for j
  proof (cases "int j < ?i")
    case True
    then show ?thesis using pre [of j] by (auto simp add: r')
  next
    case False
    with that i'(3) have "int j = ?i" by linarith
    then have "nat ?i = j" by simp
    then have "qs ! j = q" using q by simp
    then show ?thesis by (simp add: r')
  qed
  show ?thesis
    using i' vals dom' pre' qs by (simp add: wizard_inv_def a')
qed

lemma question_block_inv:
  assumes inv: "wizard_inv s T" and rng: "slider_in_range a"
    and act: "selected_department a = active_department s"
    and qb: "question_block s a = Inr r"
  shows "wizard_inv (session r) (T \<union> moved r a)"
proof (cases "questions (selected_department a) = None \<or> submitted s")
  case True
  then have "r = \<lparr>session = s, rerun = False, shown_question = None, buttons = []\<rparr>"
    using qb by (rule question_block_hidden)
  then show ?thesis
    using inv by (simp add: moved_def)
next
  case False
  then obtain qs where qs: "questions (selected_department a) = Some qs" and ns: "\<not> submitted s"
    by auto
  let ?i = "current_question_index s"
  let ?q = "qs ! nat ?i"
  let ?v = "case slider_position a of
              None \<Rightarrow> (case ratings s ?q of None \<Rightarrow> 3 | Some r \<Rightarrow> r) | Some p \<Rightarrow> p"
  from inv qs act have i: "0 \<le> ?i" "?i < int (length qs)"
    and old: "\<And>k w. ratings s k = Some w \<Longrightarrow> 1 \<le> w \<and> w \<le> 5 \<and> (k \<notin> T \<longrightarrow> w = 3)"
    by (auto simp add: wizard_inv_def)
  note form = question_block_shows [OF qs ns i]
  have shown: "shown_question r = Some ?q"
    using qb by (auto simp add: form Let_def split: if_splits)
  have v: "1 \<le> ?v \<and> ?v \<le> 5 \<and> (?q \<notin> T \<union> moved r a \<longrightarrow> ?v = 3)"
    using rng old [of ?q] by (auto simp add: slider_in_range_def moved_def shown split: option.splits)
  have r': "ratings (session r) = (ratings s)(?q \<mapsto> ?v)"
    using qb by (auto simp add: form Let_def split: if_splits)
  have a': "active_department (session r) = active_department s"
    using qb by (auto simp add: form Let_def split: if_splits)
  have i': "0 \<le> current_question_index (session r) \<and>
            current_question_index (session r) < int (length qs) \<and>
            current_question_index (session r) \<le> ?i + 1"
    using qb i by (auto simp add: form Let_def split: if_splits)
  show ?thesis
    using wizard_inv_rate [OF inv qs [unfolded act] refl, of ?v "T \<union> moved r a" "session r"] v r' a' i'
    by simp
qed

lemma question_block_submit:
  assumes inv: "wizard_inv s T" and rng: "slider_in_range a"
    and act: "selected_department a = active_department s"
    and qb: "question_block s a = Inr r"
    and ns: "\<not> submitted s" and sub: "submitted (session r)"
  shows "\<exists>qs. questions (active_department (session r)) = Some qs \<and>
           last_submitted_department (session r) = Some (active_department (session r)) \<and>
           last_submitted_ratings (session r) = ratings (session r) \<and>
           dom (ratings (session r)) = set qs"
proof -
  have "questions (selected_department a) \<noteq> None"
  proof
    assume "questions (selected_department a) = None"
    then have "r = \<lparr>session = s, rerun = False, shown_question = None, buttons = []\<rparr>"
      using question_block_hidden [of a s r] qb by simp
    then show False using ns sub by simp
  qed
  then obtain qs where qs: "questions (selected_department a) = Some qs"
    by auto
  let ?i = "current_question_index s"
  from inv qs act have i: "0 \<le> ?i" "?i < int (length qs)"
    by (auto simp add: wizard_inv_def)
  note form = question_block_shows [OF qs ns i]
  have last: "?i = int (length qs) - 1"
    using qb ns sub i by (auto simp add: form Let_def split: if_splits)
  have facts: "last_submitted_department (session r) = Some (active_department (session r)) \<and>
           last_submitted_ratings (session r) = ratings (session r) \<and>
           active_department (session r) = active_department s \<and>
           current_question_index (session r) = ?i \<and>
           qs ! nat ?i \<in> dom (ratings (session r))"
    using qb ns sub act by (auto simp add: form Let_def split: if_splits)
  have inv': "wizard_inv (session r) (T \<union> moved r a)"
    using inv rng act qb by (rule question_block_inv)
  with qs act facts have d: "dom (ratings (session r)) \<subseteq> set qs"
    and pre: "\<And>j. int j < ?i \<Longrightarrow> qs ! j \<in> dom (ratings (session r))"
    by (auto simp add: wizard_inv_def)
  have "set qs \<subseteq> dom (ratings (session r))"
  proof
    fix x assume "x \<in> set qs"
    then obtain j where j: "j < length qs" "x = qs ! j"
      by (auto simp add: in_set_conv_nth)
    show "x \<in> dom (ratings (session r))"
    proof (cases "int j < ?i")
      case True
      then show ?thesis using pre j by simp
    next
      case False
      with j last have "nat ?i = j" by linarith
      then show ?thesis using facts j by simp
    qed
  qed
  with d have "dom (ratings (session r)) = set qs" by auto
  then show ?thesis
    using qs act facts by simp
qed

lemma page_inv:
  assumes inv: "wizard_inv s T" and rng: "slider_in_range a"
    and act: "selected_department a = active_department s"
    and pg: "page s a = Inr r"
  shows "wizard_inv (session r) (T \<union> moved r a)"
proof -
  from pg obtain r0 where r0: "question_block s a = Inr r0"
    and same: "shown_question r = shown_question r0" "ratings (session r) = ratings (session r0)"
    "current_question_index (session r) = current_question_index (session r0)"
    "active_department (session r) = active_department (session r0)"
    by (rule page_cases)
  have "wizard_inv (session r0) (T \<union> moved r0 a)"
    using inv rng act r0 by (rule question_block_inv)
  moreover have "moved r a = moved r0 a"
    by (simp add: moved_def same)
  ultimately show ?thesis
    using wizard_inv_cong [of "session r" "session r0"] same by simp
qed

lemma page_submit:
  assumes inv: "wizard_inv s T" and rng: "slider_in_range a"
    and act: "selected_department a = active_department s"
    and pg: "page s a = Inr r"
    and ns: "\<not> submitted s" and sub: "submitted (session r)"
  shows "\<exists>qs. questions (active_department (session r)) = Some qs \<and>
           last_submitted_department (session r) = Some (active_department (session r)) \<and>
           last_submitted_ratings (session r) = ratings (session r) \<and>
           dom (ratings (session r)) = set qs"
proof -
  from pg obtain r0 where r0: "question_block s a = Inr r0"
    and same: "ratings (session r) = ratings (session r0)"
    "active_department (session r) = active_department (session r0)"
    "submitted (session r) = submitted (session r0)"
    "last_submitted_ratings (session r) = last_submitted_ratings (session r0)"
    "last_submitted_department (session r) = last_submitted_department (session r0)"
    by (rule page_cases)
  show ?thesis
    using question_block_submit [OF inv rng act r0 ns] sub by (simp add: same)
qed

lemma app_inv:
  assumes inv: "wizard_inv s T" and rng: "slider_in_range a" and run: "app secs s a = Inr r"
  shows "wizard_inv (session r) (T \<union> moved r a)"
  using run
proof (cases rule: app_cases)
  case 1
  then show ?thesis by (simp add: wizard_inv_reset)
next
  case 2
  show ?thesis
    using page_inv [OF wizard_inv_reset rng _ 2(3)] by (simp add: reset_for_def)
next
  case 3
  show ?thesis
    using inv rng 3 by (rule page_inv)
qed

lemma app_submit:
  assumes inv: "wizard_inv s T" and rng: "slider_in_range a" and run: "app secs s a = Inr r"
    and ns: "\<not> submitted s" and sub: "submitted (session r)"
  shows "\<exists>qs. questions (active_department (session r)) = Some qs \<and>
           last_submitted_department (session r) = Some (active_department (session r)) \<and>
           last_submitted_ratings (session r) = ratings (session r) \<and>
           dom (ratings (session r)) = set qs"
  using run
proof (cases rule: app_cases)
  case 1
  then show ?thesis using sub by (simp add: reset_for_def)
next
  case 2
  show ?thesis
    using page_submit [OF wizard_inv_reset rng _ 2(3) _ sub] by (simp add: reset_for_def)
next
  case 3
  show ?thesis
    using inv rng 3 ns sub by (rule page_submit)
qed

lemma run_all_inv:
  assumes "wizard_inv s0 T" and "\<forall>a\<in>set inputs. slider_in_range a"
    and "run_all secs s0 inputs = Inr s"
  shows "wizard_inv s (T \<union> touched secs s0 inputs)"
  using assms
proof (induction inputs arbitrary: s0 T)
  case Nil
  then show ?case by simp
next
  case (Cons a inputs)
  from Cons.prems(3) obtain r where r: "app secs s0 a = Inr r"
    and rest: "run_all secs (session r) inputs = Inr s"
    by (auto split: sum.splits)
  have "wizard_inv (session r) (T \<union> moved r a)"
    using Cons.prems(1,2) r by (simp add: app_inv)
  then have "wizard_inv s ((T \<union> moved r a) \<union> touched secs (session r) inputs)"
    using Cons.IH [of "session r" "T \<union> moved r a"] Cons.prems(2) rest by simp
  then show ?case
    using r by (simp add: Un_assoc)
qed

lemma touched_append:
  "run_all secs s0 xs = Inr s \<Longrightarrow>
   touched secs s0 (xs @ ys) = touched secs s0 xs \<union> touched secs s ys"
  by (induction xs arbitrary: s0) (auto split: sum.splits)

subsection \<open>The ratings captured at submission\<close>

text \<open>
  Claim C2. Take any runs of the script from a new session, with any inputs whose slider
  positions lie in 1..5, and a further run in which the form becomes submitted (only the
  click on \<^verbatim>\<open>Submit Ratings\<close>, created at the last question, does that). Then the
  department recorded with the submission is the active one, the keys of the captured
  ratings are exactly the questions of that department, every captured value lies in
  1..5, and the value is 3 for every question whose slider the user never moved.
\<close>

theorem submission_snapshot_complete:
  assumes runs: "run_all secs new_session inputs = Inr s"
    and rng: "\<forall>x\<in>set (inputs @ [a]). slider_in_range x"
    and run: "app secs s a = Inr r"
    and ns: "\<not> submitted s" and sub: "submitted (session r)"
  shows "\<exists>qs. questions (active_department (session r)) = Some qs \<and>
           last_submitted_department (session r) = Some (active_department (session r)) \<and>
           dom (last_submitted_ratings (session r)) = set qs \<and>
           (\<forall>q\<in>set qs. \<exists>v. last_submitted_ratings (session r) q = Some v \<and> 1 \<le> v \<and> v \<le> 5 \<and>
              (q \<notin> touched secs new_session (inputs @ [a]) \<longrightarrow> v = 3))"
proof -
  let ?T = "touched secs new_session inputs"
  have inv: "wizard_inv s ?T"
    using run_all_inv [OF wizard_inv_new _ runs] rng by simp
  have a: "slider_in_range a"
    using rng by simp
  have inv': "wizard_inv (session r) (?T \<union> moved r a)"
    using inv a run by (rule app_inv)
  have t: "touched secs new_session (inputs @ [a]) = ?T \<union> moved r a"
    using touched_append [OF runs, of "[a]"] run by simp
  obtain qs where qs: "questions (active_department (session r)) = Some qs"
    and dept: "last_submitted_department (session r) = Some (active_department (session r))"
    and snap: "last_submitted_ratings (session r) = ratings (session r)"
    and d: "dom (ratings (session r)) = set qs"
    using app_submit [OF inv a run ns sub] by blast
  have "\<exists>v. ratings (session r) q = Some v \<and> 1 \<le> v \<and> v \<le> 5 \<and>
              (q \<notin> ?T \<union> moved r a \<longrightarrow> v = 3)" if "q \<in> set qs" for q
  proof -
    from that d obtain v where v: "ratings (session r) q = Some v" by auto
    then show ?thesis
      using inv' by (auto simp add: wizard_inv_def)
  qed
  then show ?thesis
    using qs dept snap d t by auto
qed

text \<open>
  The hypotheses of C2 hold in the session in which Sales is selected, the first slider is
  moved to 5 and the other nine questions are passed with \<^verbatim>\<open>Next\<close>: the snapshot has the
  ten questions of Sales, 5 for the first and 3 for the untouched second.
\<close>

theorem submission_snapshot_complete_witness:
  "list_all slider_in_range (sales_runs @ [press Submit (viewing ''Sales'')]) \<and>
   (\<exists>s r. run_all configured new_session sales_runs = Inr s \<and>
      app configured s (press Submit (viewing ''Sales'')) = Inr r \<and>
      \<not> submitted s \<and> submitted (session r) \<and>
      last_submitted_department (session r) = Some (py ''Sales'') \<and>
      dom (last_submitted_ratings (session r)) = set sales_questions \<and>
      last_submitted_ratings (session r) (sales_questions ! 0) = Some 5 \<and>
      sales_questions ! 1 \<notin>
        touched configured new_session (sales_runs @ [press Submit (viewing ''Sales'')]) \<and>
      last_submitted_ratings (session r) (sales_questions ! 1) = Some 3)"
proof -
  let ?a = "press Submit (viewing ''Sales'')"
  have rng: "\<forall>x\<in>set (sales_runs @ [?a]). slider_in_range x"
    by (simp add: sales_runs_def slider_in_range_def viewing_def press_def slide_def)
  have "\<exists>s. run_all configured new_session sales_runs = Inr s \<and> \<not> submitted s \<and>
      (\<exists>r. app configured s ?a = Inr r \<and> submitted (session r) \<and>
         active_department (session r) = py ''Sales'' \<and>
         last_submitted_ratings (session r) (sales_questions ! 0) = Some 5)"
    by (simp add: scenario_eval sales_runs_def eval_nat_numeral)
  then obtain s r where runs: "run_all configured new_session sales_runs = Inr s"
    and ns: "\<not> submitted s" and run: "app configured s ?a = Inr r"
    and sub: "submitted (session r)"
    and dept: "active_department (session r) = py ''Sales''"
    and first: "last_submitted_ratings (session r) (sales_questions ! 0) = Some 5"
    by blast
  have untouched: "sales_questions ! 1 \<notin> touched configured new_session (sales_runs @ [?a])"
    by (simp add: scenario_eval sales_runs_def eval_nat_numeral moved_def)
  have mem: "sales_questions ! 1 \<in> set sales_questions"
    by (simp add: length_sales)
  from submission_snapshot_complete [OF runs rng run ns sub]
  have snap: "last_submitted_department (session r) = Some (py ''Sales'') \<and>
      dom (last_submitted_ratings (session r)) = set sales_questions \<and>
      (\<forall>q\<in>set sales_questions. \<exists>v. last_submitted_ratings (session r) q = Some v \<and>
          1 \<le> v \<and> v \<le> 5 \<and>
          (q \<notin> touched configured new_session (sales_runs @ [?a]) \<longrightarrow> v = 3))"
    by (simp add: dept questions_Sales)
  then have "last_submitted_ratings (session r) (sales_questions ! 1) = Some 3"
    using mem untouched by blast
  then have "\<exists>s r. run_all configured new_session sales_runs = Inr s \<and>
      app configured s ?a = Inr r \<and>
      \<not> submitted s \<and> submitted (session r) \<and>
      last_submitted_department (session r) = Some (py ''Sales'') \<and>
      dom (last_submitted_ratings (session r)) = set sales_questions \<and>
      last_submitted_ratings (session r) (sales_questions ! 0) = Some 5 \<and>
      sales_questions ! 1 \<notin> touched configured new_session (sales_runs @ [?a]) \<and>
      last_submitted_ratings (session r) (sales_questions ! 1) = Some 3"
    using runs run ns sub snap first untouched by blast
  moreover have "list_all slider_in_range (sales_runs @ [?a])"
    using rng by (simp only: list_all_iff)
  ultimately show ?thesis
    by (rule conjI [rotated])
qed

subsection \<open>A change of department\<close>

text \<open>
  Claim C8. From every session state, a run in which the selected department differs
  from the active one succeeds and leaves the index 0, no ratings, the submitted flag
  cleared, and no cached recommendations or summary; the selected department is the
  active one from then on. The run ends in \<^verbatim>\<open>st.rerun()\<close> unless the selection is
  \<^verbatim>\<open>Please Select\<close>; it is the rerun that then displays the first question and records its
  default rating.
\<close>

theorem department_change_resets:
  assumes "secs (py ''GEMINI_API_KEY'') = Some k"
    and "selected_department a \<noteq> active_department s"
  shows "\<exists>r. app secs s a = Inr r \<and>
           rerun r = (selected_department a \<noteq> py ''Please Select'') \<and>
           active_department (session r) = selected_department a \<and>
           current_question_index (session r) = 0 \<and>
           ratings (session r) = Map.empty \<and>
           \<not> submitted (session r) \<and>
           recommendations (session r) = [] \<and>
           summary (session r) = []"
proof (cases "selected_department a = py ''Please Select''")
  case True
  have "\<not> submitted (reset_for (selected_department a) s)"
    by (simp add: reset_for_def)
  then have "page (reset_for (selected_department a) s) a =
      Inr \<lparr>session = reset_for (selected_department a) s, rerun = False,
           shown_question = None, buttons = []\<rparr>"
    using True by (rule page_please_select [rotated])
  then show ?thesis
    using assms True by (simp add: app_def load_api_key_present Let_def reset_for_def)
next
  case False
  then show ?thesis
    using assms by (simp add: app_def load_api_key_present Let_def reset_for_def)
qed

text \<open>The hypotheses of C8 hold when Marketing is selected after a submission for Sales.\<close>

theorem department_change_resets_witness:
  "configured (py ''GEMINI_API_KEY'') = Some (py ''k'') \<and>
   selected_department (viewing ''Marketing'') \<noteq> active_department sales_done \<and>
   (\<exists>r. app configured sales_done (viewing ''Marketing'') = Inr r \<and>
        rerun r \<and>
        active_department (session r) = py ''Marketing'' \<and>
        current_question_index (session r) = 0 \<and>
        ratings (session r) = Map.empty \<and>
        \<not> submitted (session r) \<and>
        recommendations (session r) = [] \<and>
        summary (session r) = [])"
proof -
  have k: "configured (py ''GEMINI_API_KEY'') = Some (py ''k'')"
    by (simp add: configured_def)
  have d: "selected_department (viewing ''Marketing'') \<noteq> active_department sales_done"
    by (simp add: viewing_def sales_done_def department_names)
  have m: "selected_department (viewing ''Marketing'') = py ''Marketing''"
    by (simp add: viewing_def)
  show ?thesis
    using k d department_change_resets [where secs = configured, OF k d] by (simp add: m department_names)
qed

subsection \<open>A missing API key\<close>

text \<open>
  Claim C6, as amended. When the secrets hold no \<^verbatim>\<open>GEMINI_API_KEY\<close>, every run of the
  script fails at its first statement, the read of the secret at module level, whatever
  the session state and the input: no department is processed, no question is shown
  and no request is made, so neither the questionnaire nor the recommendations are
  available.
\<close>

theorem missing_key_stops_every_run:
  assumes "secs (py ''GEMINI_API_KEY'') = None"
  shows "app secs s a = Inl (MissingSecret (py ''GEMINI_API_KEY'')) \<and>
         run_all secs s (a # inputs) = Inl (MissingSecret (py ''GEMINI_API_KEY'')) \<and>
         interact (Suc n) secs s a = Some (Inl (MissingSecret (py ''GEMINI_API_KEY'')))"
  using assms by (simp add: app_def load_api_key_def)

text \<open>The hypothesis of C6 holds for empty secrets, in the middle of the Sales questions.\<close>

theorem missing_key_stops_every_run_witness:
  "Map.empty (py ''GEMINI_API_KEY'') = (None :: pystr option) \<and>
   app Map.empty sales_started (press Next (viewing ''Sales'')) =
     Inl (MissingSecret (py ''GEMINI_API_KEY'')) \<and>
   run_all Map.empty sales_started [press Next (viewing ''Sales''), viewing ''Sales''] =
     Inl (MissingSecret (py ''GEMINI_API_KEY'')) \<and>
   interact (Suc 2) Map.empty sales_started (press Next (viewing ''Sales'')) =
     Some (Inl (MissingSecret (py ''GEMINI_API_KEY'')))"
  using missing_key_stops_every_run [of Map.empty sales_started "press Next (viewing ''Sales'')"
      "[viewing ''Sales'']" 2]
  by simp

text \<open>
  Claim C6 as stated fails: with empty secrets, selecting Sales in a new session ends in
  the missing-key error instead of the first question, so the questionnaire is not
  usable and the error does not wait for the first use of the API; with the key in
  place the same run succeeds.
\<close>

theorem missing_key_blocks_questionnaire:
  "app Map.empty new_session (viewing ''Sales'') = Inl (MissingSecret (py ''GEMINI_API_KEY'')) \<and>
   actions 3 Map.empty new_session [viewing ''Sales''] =
     Some (Inl (MissingSecret (py ''GEMINI_API_KEY''))) \<and>
   app configured new_session (viewing ''Sales'') =
     Inr \<lparr>session = reset_for (py ''Sales'') new_session, rerun = True,
          shown_question = None, buttons = []\<rparr>"
  by (simp add: app_def load_api_key_def configured_def viewing_def new_session_def
      department_names eval_nat_numeral)

subsection \<open>Next, then Previous\<close>

lemma interact_two_runs:
  assumes "app secs s a = Inr r1" and "rerun r1"
    and "app secs (session r1) (rerun_input a) = Inr r2" and "\<not> rerun r2"
  shows "interact (Suc (Suc n)) secs s a = Some (Inr (session r2))"
  using assms by simp

lemma press_next:
  assumes key: "secs (py ''GEMINI_API_KEY'') = Some k"
    and qs: "questions (active_department s) = Some qs"
    and ns: "\<not> submitted s"
    and i: "0 \<le> current_question_index s" "current_question_index s + 1 < int (length qs) - 1"
    and a: "selected_department a = active_department s" "clicked a = Some Next"
  shows "\<exists>v w. interact (Suc (Suc n)) secs s a =
           Some (Inr (s\<lparr>ratings := (ratings s)(qs ! nat (current_question_index s) \<mapsto> v,
                                             qs ! nat (current_question_index s + 1) \<mapsto> w),
                        current_question_index := current_question_index s + 1\<rparr>)) \<and>
         (slider_position a = None \<longrightarrow>
            v = (case ratings s (qs ! nat (current_question_index s)) of None \<Rightarrow> 3 | Some r \<Rightarrow> r)) \<and>
         w = (case ((ratings s)(qs ! nat (current_question_index s) \<mapsto> v))
                     (qs ! nat (current_question_index s + 1)) of None \<Rightarrow> 3 | Some r \<Rightarrow> r)"
proof -
  let ?i = "current_question_index s"
  let ?v = "case slider_position a of
              None \<Rightarrow> (case ratings s (qs ! nat ?i) of None \<Rightarrow> 3 | Some r \<Rightarrow> r) | Some p \<Rightarrow> p"
  let ?s1 = "s\<lparr>ratings := (ratings s)(qs ! nat ?i \<mapsto> ?v), current_question_index := ?i + 1\<rparr>"
  let ?w = "case ratings ?s1 (qs ! nat (?i + 1)) of None \<Rightarrow> 3 | Some r \<Rightarrow> r"
  let ?s2 = "?s1\<lparr>ratings := (ratings ?s1)(qs ! nat (?i + 1) \<mapsto> ?w)\<rparr>"
  have qa: "questions (selected_department a) = Some qs"
    using qs a by simp
  have i1: "?i < int (length qs) - 1"
    using i by simp
  have run1: "app secs s a = Inr \<lparr>session = ?s1, rerun = True, shown_question = Some (qs ! nat ?i),
        buttons = (if ?i > 0 then [Previous] else []) @ [Next]\<rparr>"
    using page_navigation [OF qa ns i(1) i1] a
    by (simp add: app_same_department [where secs = secs, OF key] Let_def)
  have qa': "questions (selected_department (rerun_input a)) = Some qs"
    using qa by (simp add: rerun_input_def)
  have run2: "app secs ?s1 (rerun_input a) = Inr \<lparr>session = ?s2, rerun = False,
        shown_question = Some (qs ! nat (?i + 1)), buttons = [Previous, Next]\<rparr>"
    using page_navigation [OF qa', of ?s1] ns i a
    by (simp add: app_same_department [where secs = secs, OF key] Let_def rerun_input_def)
  have "interact (Suc (Suc n)) secs s a = Some (Inr ?s2)"
    using interact_two_runs [OF run1 _ _ _] run2 by simp
  then show ?thesis
    by (intro exI [of _ ?v] exI [of _ ?w]) (auto split: option.splits)
qed

lemma press_previous:
  assumes key: "secs (py ''GEMINI_API_KEY'') = Some k"
    and qs: "questions (active_department s) = Some qs"
    and ns: "\<not> submitted s"
    and i: "0 < current_question_index s" "current_question_index s < int (length qs) - 1"
    and a: "selected_department a = active_department s" "clicked a = Some Previous"
  shows "\<exists>v w. interact (Suc (Suc n)) secs s a =
           Some (Inr (s\<lparr>ratings := (ratings s)(qs ! nat (current_question_index s) \<mapsto> v,
                                             qs ! nat (current_question_index s - 1) \<mapsto> w),
                        current_question_index := current_question_index s - 1\<rparr>)) \<and>
         (slider_position a = None \<longrightarrow>
            v = (case ratings s (qs ! nat (current_question_index s)) of None \<Rightarrow> 3 | Some r \<Rightarrow> r)) \<and>
         w = (case ((ratings s)(qs ! nat (current_question_index s) \<mapsto> v))
                     (qs ! nat (current_question_index s - 1)) of None \<Rightarrow> 3 | Some r \<Rightarrow> r)"
proof -
  let ?i = "current_question_index s"
  let ?v = "case slider_position a of
              None \<Rightarrow> (case ratings s (qs ! nat ?i) of None \<Rightarrow> 3 | Some r \<Rightarrow> r) | Some p \<Rightarrow> p"
  let ?s1 = "s\<lparr>ratings := (ratings s)(qs ! nat ?i \<mapsto> ?v), current_question_index := ?i - 1\<rparr>"
  let ?w = "case ratings ?s1 (qs ! nat (?i - 1)) of None \<Rightarrow> 3 | Some r \<Rightarrow> r"
  let ?s2 = "?s1\<lparr>ratings := (ratings ?s1)(qs ! nat (?i - 1) \<mapsto> ?w)\<rparr>"
  have qa: "questions (selected_department a) = Some qs"
    using qs a by simp
  have i0: "0 \<le> ?i"
    using i by simp
  have run1: "app secs s a = Inr \<lparr>session = ?s1, rerun = True, shown_question = Some (qs ! nat ?i),
        buttons = [Previous]\<rparr>"
    using page_navigation [OF qa ns i0 i(2)] a i
    by (simp add: app_same_department [where secs = secs, OF key] Let_def)
  have qa': "questions (selected_department (rerun_input a)) = Some qs"
    using qa by (simp add: rerun_input_def)
  have run2: "app secs ?s1 (rerun_input a) = Inr \<lparr>session = ?s2, rerun = False,
        shown_question = Some (qs ! nat (?i - 1)),
        buttons = (if ?i - 1 > 0 then [Previous] else []) @ [Next]\<rparr>"
    using page_navigation [OF qa', of ?s1] ns i a
    by (simp add: app_same_department [where secs = secs, OF key] Let_def rerun_input_def)
  have "interact (Suc (Suc n)) secs s a = Some (Inr ?s2)"
    using interact_two_runs [OF run1 _ _ _] run2 by simp
  then show ?thesis
    by (intro exI [of _ ?v] exI [of _ ?w]) (auto split: option.splits)
qed

text \<open>
  Claim C9, as amended. From a question with index \<open>i\<close> such that \<open>i + 1\<close> is still below
  the last index, the action \<^verbatim>\<open>Next\<close> (the click and its rerun) leads to index \<open>i + 1\<close>, and
  the action \<^verbatim>\<open>Previous\<close> from there leads back to \<open>i\<close>; the round trip changes no rating
  other than those of the two questions displayed, and when the sliders are left alone
  it changes no recorded rating at all. In general a run with an unchanged department
  changes the rating of no question other than the one it displays. The buttons
  \<^verbatim>\<open>Previous\<close> and \<^verbatim>\<open>Next\<close> are created only below the last index; at the last question
  only \<^verbatim>\<open>Submit Ratings\<close> is.
\<close>

theorem next_then_previous:
  assumes key: "secs (py ''GEMINI_API_KEY'') = Some k"
    and qs: "questions (active_department s) = Some qs"
    and ns: "\<not> submitted s"
    and i: "0 \<le> current_question_index s" "current_question_index s + 1 < int (length qs) - 1"
    and a1: "selected_department a1 = active_department s" "clicked a1 = Some Next"
    and a2: "selected_department a2 = active_department s" "clicked a2 = Some Previous"
  shows "(\<exists>s1 s2. interact (Suc (Suc n)) secs s a1 = Some (Inr s1) \<and>
            current_question_index s1 = current_question_index s + 1 \<and>
            interact (Suc (Suc m)) secs s1 a2 = Some (Inr s2) \<and>
            current_question_index s2 = current_question_index s \<and>
            (\<forall>q. q \<noteq> qs ! nat (current_question_index s) \<and>
                 q \<noteq> qs ! nat (current_question_index s + 1) \<longrightarrow> ratings s2 q = ratings s q) \<and>
            (slider_position a1 = None \<and> slider_position a2 = None \<longrightarrow>
               (\<forall>q\<in>dom (ratings s). ratings s2 q = ratings s q))) \<and>
         (\<forall>s' a' r' q. app secs s' a' = Inr r' \<and> selected_department a' = active_department s' \<and>
              shown_question r' \<noteq> Some q \<longrightarrow> ratings (session r') q = ratings s' q)"
proof
  let ?i = "current_question_index s"
  obtain v w where step1: "interact (Suc (Suc n)) secs s a1 =
      Some (Inr (s\<lparr>ratings := (ratings s)(qs ! nat ?i \<mapsto> v, qs ! nat (?i + 1) \<mapsto> w),
                   current_question_index := ?i + 1\<rparr>))"
    and v: "slider_position a1 = None \<longrightarrow>
            v = (case ratings s (qs ! nat ?i) of None \<Rightarrow> 3 | Some r \<Rightarrow> r)"
    and w: "w = (case ((ratings s)(qs ! nat ?i \<mapsto> v)) (qs ! nat (?i + 1)) of
                   None \<Rightarrow> 3 | Some r \<Rightarrow> r)"
    using press_next [where secs = secs and n = n, OF key qs ns i a1] by auto
  define s1 where "s1 = s\<lparr>ratings := (ratings s)(qs ! nat ?i \<mapsto> v, qs ! nat (?i + 1) \<mapsto> w),
                   current_question_index := ?i + 1\<rparr>"
  have qs1: "questions (active_department s1) = Some qs" and ns1: "\<not> submitted s1"
    and i1: "0 < current_question_index s1" "current_question_index s1 < int (length qs) - 1"
    and a2': "selected_department a2 = active_department s1"
    using qs ns i a2 by (simp_all add: s1_def)
  obtain v' w' where step2: "interact (Suc (Suc m)) secs s1 a2 =
      Some (Inr (s1\<lparr>ratings := (ratings s1)(qs ! nat (current_question_index s1) \<mapsto> v',
                        qs ! nat (current_question_index s1 - 1) \<mapsto> w'),
                    current_question_index := current_question_index s1 - 1\<rparr>))"
    and v': "slider_position a2 = None \<longrightarrow>
            v' = (case ratings s1 (qs ! nat (current_question_index s1)) of None \<Rightarrow> 3 | Some r \<Rightarrow> r)"
    and w': "w' = (case ((ratings s1)(qs ! nat (current_question_index s1) \<mapsto> v'))
                     (qs ! nat (current_question_index s1 - 1)) of None \<Rightarrow> 3 | Some r \<Rightarrow> r)"
    using press_previous [where secs = secs and n = m, OF key qs1 ns1 i1 a2' a2(2)] by auto
  define s2 where "s2 = s1\<lparr>ratings := (ratings s1)(qs ! nat (current_question_index s1) \<mapsto> v',
                        qs ! nat (current_question_index s1 - 1) \<mapsto> w'),
                    current_question_index := current_question_index s1 - 1\<rparr>"
  have idx: "current_question_index s1 = ?i + 1" "current_question_index s2 = ?i"
    by (simp_all add: s1_def s2_def)
  have r2: "ratings s2 = (ratings s)(qs ! nat ?i \<mapsto> v, qs ! nat (?i + 1) \<mapsto> w,
                                    qs ! nat (?i + 1) \<mapsto> v', qs ! nat ?i \<mapsto> w')"
    by (simp add: s1_def s2_def)
  have others: "\<forall>q. q \<noteq> qs ! nat ?i \<and> q \<noteq> qs ! nat (?i + 1) \<longrightarrow> ratings s2 q = ratings s q"
    by (simp add: r2)
  have r1: "ratings s1 = (ratings s)(qs ! nat ?i \<mapsto> v, qs ! nat (?i + 1) \<mapsto> w)"
    by (simp add: s1_def)
  have kept: "\<forall>q\<in>dom (ratings s). ratings s2 q = ratings s q"
    if none: "slider_position a1 = None \<and> slider_position a2 = None"
    using v v' w w' none unfolding r2 r1 idx
    by (auto split: option.splits if_splits)
  show "\<exists>s1 s2. interact (Suc (Suc n)) secs s a1 = Some (Inr s1) \<and>
            current_question_index s1 = current_question_index s + 1 \<and>
            interact (Suc (Suc m)) secs s1 a2 = Some (Inr s2) \<and>
            current_question_index s2 = current_question_index s \<and>
            (\<forall>q. q \<noteq> qs ! nat (current_question_index s) \<and>
                 q \<noteq> qs ! nat (current_question_index s + 1) \<longrightarrow> ratings s2 q = ratings s q) \<and>
            (slider_position a1 = None \<and> slider_position a2 = None \<longrightarrow>
               (\<forall>q\<in>dom (ratings s). ratings s2 q = ratings s q))"
    using step1 step2 idx others kept unfolding s1_def [symmetric] s2_def [symmetric]
    by blast
next
  show "\<forall>s' a' r' q. app secs s' a' = Inr r' \<and> selected_department a' = active_department s' \<and>
              shown_question r' \<noteq> Some q \<longrightarrow> ratings (session r') q = ratings s' q"
    using app_rates_shown by blast
qed

text \<open>
  The hypotheses of C9 hold at the first question of Sales, rated 4: after \<^verbatim>\<open>Next\<close> and
  \<^verbatim>\<open>Previous\<close> the index is 0 again and the rating is still 4.
\<close>

theorem next_then_previous_witness:
  "configured (py ''GEMINI_API_KEY'') = Some (py ''k'') \<and>
   questions (active_department sales_started) = Some sales_questions \<and>
   \<not> submitted sales_started \<and>
   0 \<le> current_question_index sales_started \<and>
   current_question_index sales_started + 1 < int (length sales_questions) - 1 \<and>
   slider_position (press Next (viewing ''Sales'')) = None \<and>
   slider_position (press Previous (viewing ''Sales'')) = None \<and>
   sales_questions ! 0 \<in> dom (ratings sales_started) \<and>
   (\<exists>s1 s2. interact (Suc (Suc 0)) configured sales_started (press Next (viewing ''Sales'')) =
        Some (Inr s1) \<and>
      current_question_index s1 = 1 \<and>
      interact (Suc (Suc 0)) configured s1 (press Previous (viewing ''Sales'')) = Some (Inr s2) \<and>
      current_question_index s2 = 0 \<and>
      ratings s2 (sales_questions ! 5) = ratings sales_started (sales_questions ! 5) \<and>
      ratings s2 (sales_questions ! 0) = Some 4) \<and>
   app configured sales_started (viewing ''Sales'') =
     Inr \<lparr>session = sales_started, rerun = False,
          shown_question = Some (sales_questions ! 0), buttons = [Next]\<rparr> \<and>
   ratings (session \<lparr>session = sales_started, rerun = False,
          shown_question = Some (sales_questions ! 0), buttons = [Next]\<rparr>) (sales_questions ! 1) =
     ratings sales_started (sales_questions ! 1)"
proof -
  let ?n = "press Next (viewing ''Sales'')" and ?p = "press Previous (viewing ''Sales'')"
  let ?r = "\<lparr>session = sales_started, rerun = False,
          shown_question = Some (sales_questions ! 0), buttons = [Next]\<rparr>"
  have k: "configured (py ''GEMINI_API_KEY'') = Some (py ''k'')"
    by (simp add: configured_def)
  have qs: "questions (active_department sales_started) = Some sales_questions"
    by (simp add: sales_started_def questions_Sales)
  have ns: "\<not> submitted sales_started"
    by (simp add: sales_started_def)
  have i: "0 \<le> current_question_index sales_started"
    "current_question_index sales_started + 1 < int (length sales_questions) - 1"
    by (simp_all add: sales_started_def length_sales)
  have n: "selected_department ?n = active_department sales_started" "clicked ?n = Some Next"
    and p: "selected_department ?p = active_department sales_started" "clicked ?p = Some Previous"
    and sl: "slider_position ?n = None" "slider_position ?p = None"
    by (simp_all add: sales_started_def viewing_def press_def)
  have d: "sales_questions ! 0 \<in> dom (ratings sales_started)"
    and v: "ratings sales_started (sales_questions ! 0) = Some 4"
    and idx: "current_question_index sales_started = 0"
    by (simp_all add: sales_started_def)
  have far: "sales_questions ! 5 \<noteq> sales_questions ! nat (current_question_index sales_started) \<and>
      sales_questions ! 5 \<noteq> sales_questions ! nat (current_question_index sales_started + 1)"
    by (simp add: idx nth_sales)
  have run: "app configured sales_started (viewing ''Sales'') = Inr ?r"
    by (simp add: scenario_eval sales_started_def fun_upd_idem)
  have other: "selected_department (viewing ''Sales'') = active_department sales_started \<and>
      shown_question ?r \<noteq> Some (sales_questions ! 1)"
    by (simp add: viewing_def sales_started_def nth_sales)
  note trip = next_then_previous [where secs = configured and n = 0 and m = 0,
      OF k qs ns i n p]
  from trip obtain s1 s2 where
    a: "interact (Suc (Suc 0)) configured sales_started ?n = Some (Inr s1)"
    "current_question_index s1 = current_question_index sales_started + 1"
    "interact (Suc (Suc 0)) configured s1 ?p = Some (Inr s2)"
    "current_question_index s2 = current_question_index sales_started"
    and others: "\<forall>q. q \<noteq> sales_questions ! nat (current_question_index sales_started) \<and>
         q \<noteq> sales_questions ! nat (current_question_index sales_started + 1) \<longrightarrow>
         ratings s2 q = ratings sales_started q"
    and kept: "slider_position ?n = None \<and> slider_position ?p = None \<longrightarrow>
         (\<forall>q\<in>dom (ratings sales_started). ratings s2 q = ratings sales_started q)"
    by blast
  have c1: "ratings s2 (sales_questions ! 5) = ratings sales_started (sales_questions ! 5)"
    using others far by blast
  have c2: "ratings s2 (sales_questions ! 0) = Some 4"
    using kept sl d v by auto
  from trip run other
  have c3: "ratings (session ?r) (sales_questions ! 1) = ratings sales_started (sales_questions ! 1)"
    by blast
  have "\<exists>s1 s2. interact (Suc (Suc 0)) configured sales_started ?n = Some (Inr s1) \<and>
      current_question_index s1 = 1 \<and>
      interact (Suc (Suc 0)) configured s1 ?p = Some (Inr s2) \<and>
      current_question_index s2 = 0 \<and>
      ratings s2 (sales_questions ! 5) = ratings sales_started (sales_questions ! 5) \<and>
      ratings s2 (sales_questions ! 0) = Some 4"
    using a c1 c2 by (auto simp add: idx)
  then show ?thesis
    using k qs ns i sl d run c3 by blast
qed

text \<open>
  Claim C9 as stated fails at the index before the last one: in Sales, after eight clicks
  on \<^verbatim>\<open>Next\<close> the index is 8, which is below the last index 9; \<^verbatim>\<open>Next\<close> leads to 9, and
  \<^verbatim>\<open>Previous\<close> from there leaves the index at 9, because the script creates no
  \<^verbatim>\<open>Previous\<close> button at the last question.
\<close>

theorem previous_missing_on_last_question:
  "map_option (map_sum id current_question_index)
     (actions 3 configured new_session sales_to_ninth) = Some (Inr 8) \<and>
   map_option (map_sum id current_question_index)
     (actions 3 configured new_session
        (sales_to_ninth @ [press Next (viewing ''Sales'')])) = Some (Inr 9) \<and>
   map_option (map_sum id current_question_index)
     (actions 3 configured new_session
        (sales_to_ninth @ [press Next (viewing ''Sales''), press Previous (viewing ''Sales'')])) =
     Some (Inr 9)"
  by (simp add: scenario_eval sales_to_ninth_def eval_nat_numeral)

end
